theory Spec2Isabelle
  imports Main
begin

section \<open>The serializer's batched write pipeline (serializer/serializer.cc)\<close>

subsection \<open>Data model\<close>

text \<open>
  Pointers and opaque handles are natural numbers; a nullable pointer is an \<open>option\<close>.
  No arithmetic is done on block identifiers, so their width plays no role.
\<close>

type_synonym block_id_t = nat
type_synonym buf_ptr = nat
type_synonym file_account_ptr = nat
type_synonym iocallback_ptr = nat
type_synonym launch_callback_ptr = nat
type_synonym cond_ptr = nat
type_synonym block_token = nat

text \<open>\<open>counted_t<standard_block_token_t>\<close>: \<open>None\<close> is the empty (default constructed)
  handle, as in \<open>op->token = counted_t<standard_block_token_t>()\<close>.\<close>

type_synonym counted_t = "block_token option"

text \<open>Modelled from the spec: \<open>repli_timestamp_t\<close> is declared in another file, not in \<open>serializer.cc\<close>;
  the spec describes a logical time value with one distinguished \<open>invalid\<close> value.\<close>

datatype repli_timestamp_t = repli_timestamp nat | repli_timestamp_invalid

text \<open>\<open>serializer_write_t\<close> is a tagged union: \<open>action_type\<close> together with the member of
  \<open>action\<close> that it selects. The \<open>default: unreachable()\<close> branch of \<open>perform_write\<close>
  has no counterpart, the datatype has exactly the three tags.\<close>

datatype action_t =
    UPDATE buf_ptr repli_timestamp_t "iocallback_ptr option" "launch_callback_ptr option"
  | DELETE
  | TOUCH repli_timestamp_t

record serializer_write_t =
  block_id :: block_id_t
  action :: action_t

definition make_touch :: "block_id_t \<Rightarrow> repli_timestamp_t \<Rightarrow> serializer_write_t" where
  "make_touch bid recency = \<lparr>block_id = bid, action = TOUCH recency\<rparr>"

definition make_update ::
  "block_id_t \<Rightarrow> repli_timestamp_t \<Rightarrow> buf_ptr \<Rightarrow> iocallback_ptr option \<Rightarrow>
   launch_callback_ptr option \<Rightarrow> serializer_write_t" where
  "make_update bid recency buf io_callback launch_callback =
     \<lparr>block_id = bid, action = UPDATE buf recency io_callback launch_callback\<rparr>"

definition make_delete :: "block_id_t \<Rightarrow> serializer_write_t" where
  "make_delete bid = \<lparr>block_id = bid, action = DELETE\<rparr>"

text \<open>Modelled from the spec: \<open>index_write_op_t\<close> and its constructor are declared outside
  \<open>serializer.cc\<close>, in the header. The spec gives the operation a block identifier, a token and a
  recency, where a touch leaves the token "unchanged (not modified)"; so each of the two
  payload fields is either absent (\<open>None\<close>: the index keeps what it has) or a new value.
  For the token the new value may itself be the empty handle, \<open>Some None\<close>.
  The fields carry the prefix \<open>op_\<close> only where the name is taken by
  \<open>serializer_write_t\<close>.\<close>

record index_write_op_t =
  op_block_id :: block_id_t
  token :: "counted_t option"
  recency :: "repli_timestamp_t option"

definition index_write_op :: "block_id_t \<Rightarrow> index_write_op_t" where
  "index_write_op bid = \<lparr>op_block_id = bid, token = None, recency = None\<rparr>"

text \<open>\<open>op->token.get()\<close>: the handle stored in the operation.\<close>

definition token_get :: "index_write_op_t \<Rightarrow> counted_t" where
  "token_get op = (case token op of None \<Rightarrow> None | Some t \<Rightarrow> t)"

text \<open>What \<open>do_writes\<close> does to the outside, in program order: the heap operations on
  \<open>write_cond_t\<close> objects and the calls on its collaborators.\<close>

datatype call =
    New_write_cond cond_ptr "iocallback_ptr option"
  | Block_write buf_ptr block_id_t file_account_ptr cond_ptr
  | On_write_launched launch_callback_ptr counted_t
  | Wait cond_ptr
  | Delete_write_cond cond_ptr
  | Index_write "index_write_op_t list" file_account_ptr

text \<open>\<open>serializer_t::block_write\<close> and \<open>serializer_t::index_write\<close> are virtual and
  implemented elsewhere: they are parameters, acting on a serializer state \<open>'s\<close>.\<close>

record 's serializer_t =
  block_write :: "'s \<Rightarrow> buf_ptr \<Rightarrow> block_id_t \<Rightarrow> file_account_ptr \<Rightarrow> cond_ptr \<Rightarrow> counted_t \<times> 's"
  index_write :: "'s \<Rightarrow> index_write_op_t list \<Rightarrow> file_account_ptr \<Rightarrow> 's"

text \<open>The state the pipeline runs in: the serializer's own state, the next free address
  for \<open>new write_cond_t\<close>, and the calls made so far (oldest first).\<close>

record 's world =
  ser :: 's
  next_cond :: cond_ptr
  trace :: "call list"

subsection \<open>The pipeline\<close>

definition emit :: "call \<Rightarrow> 's world \<Rightarrow> 's world" where
  "emit c w = w\<lparr>trace := trace w @ [c]\<rparr>"

text \<open>\<open>new write_cond_t(cb)\<close>\<close>

definition new_write_cond :: "iocallback_ptr option \<Rightarrow> 's world \<Rightarrow> cond_ptr \<times> 's world" where
  "new_write_cond cb w =
     (next_cond w, emit (New_write_cond (next_cond w) cb) (w\<lparr>next_cond := Suc (next_cond w)\<rparr>))"

text \<open>\<open>perform_write(write, ser, acct, conds, op)\<close>: \<open>conds\<close> and \<open>op\<close> are updated in
  place by the source and returned here.\<close>

fun perform_write ::
  "serializer_write_t \<Rightarrow> 's serializer_t \<Rightarrow> file_account_ptr \<Rightarrow>
   cond_ptr list \<times> index_write_op_t \<times> 's world \<Rightarrow> cond_ptr list \<times> index_write_op_t \<times> 's world"
where
  "perform_write write S acct (conds, op, w) =
    (case action write of
       UPDATE buf rec io_callback launch_callback \<Rightarrow>
         (let (p, w1) = new_write_cond io_callback w;
              conds1 = conds @ [p];
              (tok, s1) = block_write S (ser w1) buf (op_block_id op) acct (last conds1);
              w2 = emit (Block_write buf (op_block_id op) acct (last conds1)) (w1\<lparr>ser := s1\<rparr>);
              op1 = op\<lparr>token := Some tok\<rparr>;
              w3 = (case launch_callback of
                      None \<Rightarrow> w2
                    | Some l \<Rightarrow> emit (On_write_launched l (token_get op1)) w2);
              op2 = op1\<lparr>recency := Some rec\<rparr>
          in (conds1, op2, w3))
     | DELETE \<Rightarrow>
         (let op1 = op\<lparr>token := Some None\<rparr>;
              op2 = op1\<lparr>recency := Some repli_timestamp_invalid\<rparr>
          in (conds, op2, w))
     | TOUCH rec \<Rightarrow> (conds, op\<lparr>recency := Some rec\<rparr>, w))"

text \<open>Step 1 of \<open>do_writes\<close>: the loop over \<open>writes\<close>.\<close>

fun issue_writes ::
  "'s serializer_t \<Rightarrow> file_account_ptr \<Rightarrow> serializer_write_t list \<Rightarrow>
   cond_ptr list \<times> index_write_op_t list \<times> 's world \<Rightarrow>
   cond_ptr list \<times> index_write_op_t list \<times> 's world"
where
  "issue_writes S acct [] st = st"
| "issue_writes S acct (write # writes) (conds, ops, w) =
     (let op = index_write_op (block_id write);
          (conds1, op1, w1) = perform_write write S acct (conds, op, w)
      in issue_writes S acct writes (conds1, ops @ [op1], w1))"

text \<open>Step 2: the loop over \<open>block_write_conds\<close>, \<open>wait()\<close> then \<open>delete\<close>.\<close>

fun wait_writes :: "cond_ptr list \<Rightarrow> 's world \<Rightarrow> 's world" where
  "wait_writes [] w = w"
| "wait_writes (c # cs) w = wait_writes cs (emit (Delete_write_cond c) (emit (Wait c) w))"

text \<open>\<open>do_writes(ser, writes, io_account)\<close>. The thread assertion and the two
  \<open>reserve\<close> calls have no effect on the result.\<close>

definition do_writes ::
  "'s serializer_t \<Rightarrow> serializer_write_t list \<Rightarrow> file_account_ptr \<Rightarrow> 's world \<Rightarrow> 's world" where
  "do_writes S writes io_account w =
     (let (block_write_conds, index_write_ops, w1) = issue_writes S io_account writes ([], [], w);
          w2 = wait_writes block_write_conds w1
      in emit (Index_write index_write_ops io_account)
           (w2\<lparr>ser := index_write S (ser w2) index_write_ops io_account\<rparr>))"

subsection \<open>Observations on the calls of the pipeline\<close>

fun issue_call :: "call \<Rightarrow> bool" where
  "issue_call (New_write_cond p cb) = True"
| "issue_call (Block_write b i a c) = True"
| "issue_call (On_write_launched l t) = True"
| "issue_call (Wait c) = False"
| "issue_call (Delete_write_cond c) = False"
| "issue_call (Index_write ops a) = False"

fun written_conds :: "call list \<Rightarrow> cond_ptr list" where
  "written_conds [] = []"
| "written_conds (Block_write b i a c # cs) = c # written_conds cs"
| "written_conds (x # cs) = written_conds cs"

fun written_blocks :: "call list \<Rightarrow> block_id_t list" where
  "written_blocks [] = []"
| "written_blocks (Block_write b i a c # cs) = i # written_blocks cs"
| "written_blocks (x # cs) = written_blocks cs"

fun is_update :: "serializer_write_t \<Rightarrow> bool" where
  "is_update write = (case action write of UPDATE b r cb l \<Rightarrow> True | _ \<Rightarrow> False)"

definition op_matches :: "serializer_write_t \<Rightarrow> index_write_op_t \<Rightarrow> bool" where
  "op_matches write op =
     (op_block_id op = block_id write \<and>
      (case action write of
         UPDATE b r cb l \<Rightarrow> token op \<noteq> None \<and> recency op = Some r
       | DELETE \<Rightarrow> token op = Some None \<and> recency op = Some repli_timestamp_invalid
       | TOUCH r \<Rightarrow> token op = None \<and> recency op = Some r))"

fun wait_calls :: "cond_ptr list \<Rightarrow> call list" where
  "wait_calls [] = []"
| "wait_calls (c # cs) = Wait c # Delete_write_cond c # wait_calls cs"

fun is_index_write :: "call \<Rightarrow> bool" where
  "is_index_write (Index_write ops a) = True"
| "is_index_write c = False"

fun created_conds :: "call list \<Rightarrow> cond_ptr list" where
  "created_conds [] = []"
| "created_conds (New_write_cond p cb # cs) = p # created_conds cs"
| "created_conds (x # cs) = created_conds cs"

fun launched :: "call list \<Rightarrow> (launch_callback_ptr \<times> counted_t) list" where
  "launched [] = []"
| "launched (On_write_launched l t # cs) = (l, t) # launched cs"
| "launched (x # cs) = launched cs"

definition op_launch :: "serializer_write_t \<Rightarrow> index_write_op_t \<Rightarrow> (launch_callback_ptr \<times> counted_t) list" where
  "op_launch wr op =
     (case action wr of
        UPDATE b r cb (Some l) \<Rightarrow> [(l, token_get op)]
      | _ \<Rightarrow> [])"

subsection \<open>Test doubles\<close>

text \<open>A serializer that numbers the tokens it hands out, and the batch of the
  end-to-end example: an update of block 1, a delete of block 2, a touch of block 3.\<close>

definition counting_serializer :: "nat serializer_t" where
  "counting_serializer =
     \<lparr>block_write = (\<lambda>s buf bid acct cb. (Some s, Suc s)),
      index_write = (\<lambda>s ops acct. s)\<rparr>"

definition example_world :: "nat world" where
  "example_world = \<lparr>ser = 0, next_cond = 0, trace = []\<rparr>"

definition example_writes :: "serializer_write_t list" where
  "example_writes =
     [make_update 1 (repli_timestamp 5) 100 None (Some 7),
      make_delete 2,
      make_touch 3 (repli_timestamp 9)]"

subsection \<open>Running the pipeline against asynchronous completions\<close>

text \<open>\<open>write_cond_t\<close>: the caller's callback, and the state of its \<open>cond_t\<close> base.\<close>

record write_cond_t =
  callback :: "iocallback_ptr option"
  pulsed :: bool

text \<open>\<open>write_cond_t::on_io_complete\<close>: forward to the callback if there is one, then
  \<open>pulse()\<close>. The second component collects the callbacks that were called.\<close>

definition write_cond_on_io_complete ::
  "write_cond_t \<Rightarrow> iocallback_ptr list \<Rightarrow> write_cond_t \<times> iocallback_ptr list" where
  "write_cond_on_io_complete wc called =
     (let called1 = (case callback wc of None \<Rightarrow> called | Some cb \<Rightarrow> called @ [cb])
      in (wc\<lparr>pulsed := True\<rparr>, called1))"

text \<open>Modelled from the spec: \<open>cond_t\<close> and the I/O layer are defined in other files.
  The spec says that \<open>wait()\<close> blocks the caller until the synchronizer is completed and
  returns at once afterwards, and that the I/O primitive calls \<open>on_complete\<close> of an issued
  write once, asynchronously. So the calls of the pipeline run in program order, a
  \<open>Wait\<close> can only run on a pulsed synchronizer, and between any two of them the I/O layer
  may complete a write that is in flight. \<open>pc\<close> counts the calls of the pipeline already
  made; \<open>None\<close> says that the chosen step cannot be taken in this state.\<close>

record run_state =
  pc :: nat
  heap :: "cond_ptr \<Rightarrow> write_cond_t option"
  in_flight :: "cond_ptr list"
  completed :: "cond_ptr list"
  forwarded :: "iocallback_ptr list"

definition init_run :: run_state where
  "init_run = \<lparr>pc = 0, heap = (\<lambda>p. None), in_flight = [], completed = [], forwarded = []\<rparr>"

datatype sched = Run | Io_complete cond_ptr

fun exec_call :: "call \<Rightarrow> run_state \<Rightarrow> run_state option" where
  "exec_call (New_write_cond p cb) st =
     Some (st\<lparr>heap := (heap st)(p := Some \<lparr>callback = cb, pulsed = False\<rparr>)\<rparr>)"
| "exec_call (Block_write buf bid acct c) st = Some (st\<lparr>in_flight := in_flight st @ [c]\<rparr>)"
| "exec_call (On_write_launched l t) st = Some st"
| "exec_call (Wait c) st =
     (case heap st c of
        None \<Rightarrow> None
      | Some wc \<Rightarrow> if pulsed wc then Some st else None)"
| "exec_call (Delete_write_cond c) st = Some (st\<lparr>heap := (heap st)(c := None)\<rparr>)"
| "exec_call (Index_write ops acct) st = Some st"

fun sched_step :: "call list \<Rightarrow> sched \<Rightarrow> run_state \<Rightarrow> run_state option" where
  "sched_step prog Run st =
     (if pc st < length prog
      then (case exec_call (prog ! pc st) st of
              None \<Rightarrow> None
            | Some st1 \<Rightarrow> Some (st1\<lparr>pc := Suc (pc st)\<rparr>))
      else None)"
| "sched_step prog (Io_complete c) st =
     (if c \<in> set (in_flight st)
      then (case heap st c of
              None \<Rightarrow> None
            | Some wc \<Rightarrow>
                (let (wc1, called) = write_cond_on_io_complete wc (forwarded st)
                 in Some (st\<lparr>heap := (heap st)(c := Some wc1),
                             in_flight := remove1 c (in_flight st),
                             completed := completed st @ [c],
                             forwarded := called\<rparr>)))
      else None)"

fun run_sched :: "call list \<Rightarrow> sched list \<Rightarrow> run_state \<Rightarrow> run_state option" where
  "run_sched prog [] st = Some st"
| "run_sched prog (x # xs) st =
     (case sched_step prog x st of
        None \<Rightarrow> None
      | Some st1 \<Rightarrow> run_sched prog xs st1)"

text \<open>What the invariant of a run says: the pipeline is inside its program, every
  \<open>Wait\<close> it has passed and every pulsed synchronizer belong to a completed write.\<close>

definition run_inv :: "call list \<Rightarrow> run_state \<Rightarrow> bool" where
  "run_inv prog st =
     (pc st \<le> length prog \<and>
      (\<forall>k<pc st. \<forall>c. prog ! k = Wait c \<longrightarrow> c \<in> set (completed st)) \<and>
      (\<forall>c wc. heap st c = Some wc \<longrightarrow> pulsed wc \<longrightarrow> c \<in> set (completed st)))"

definition example_prog :: "call list" where
  "example_prog = trace (do_writes counting_serializer example_writes 0 example_world)"

section \<open>The fan-in of \<open>serializer_t::block_writes\<close>\<close>

text \<open>Fatal checks of the source: a failed \<open>guarantee\<close>, a failed \<open>rassert\<close> (as in a
  build that keeps them), and a call on an object that was deleted.\<close>

datatype fault = Guarantee_failed | Rassert_failed | Use_after_delete

record block_write_info_t =
  info_buf :: buf_ptr
  info_block_id :: block_id_t

text \<open>\<open>intermediate_cb_t\<close>. The downstream \<open>callee\<close> is taken to be a non-null pointer.\<close>

record intermediate_cb_t =
  countdown :: nat
  callee :: iocallback_ptr

text \<open>What can be seen of a fan-in: completions of the physical writes, numbered by the
  position of the write in \<open>write_infos\<close>, and calls of the downstream callback.\<close>

datatype fan_event = Completed nat | Downstream iocallback_ptr

text \<open>The heap cell of the \<open>intermediate_cb_t\<close> object (\<open>None\<close> once it has deleted
  itself), the block writes issued with it as their callback, and the events so far.\<close>

record 's fan_state =
  fan_ser :: 's
  intermediate :: "intermediate_cb_t option"
  issued :: "(buf_ptr \<times> block_id_t \<times> file_account_ptr) list"
  events :: "fan_event list"

text \<open>\<open>intermediate_cb_t::on_io_complete\<close>, on the heap cell of the object.\<close>

definition intermediate_on_io_complete :: "'s fan_state \<Rightarrow> fault + 's fan_state" where
  "intermediate_on_io_complete st =
     (case intermediate st of
        None \<Rightarrow> Inl Use_after_delete
      | Some this \<Rightarrow>
          if \<not> countdown this > 0 then Inl Guarantee_failed
          else
            (let this1 = this\<lparr>countdown := countdown this - 1\<rparr>
             in if countdown this1 = 0
                then (let local_callee = callee this1
                      in Inr (st\<lparr>intermediate := None,
                                 events := events st @ [Downstream local_callee]\<rparr>))
                else Inr (st\<lparr>intermediate := Some this1\<rparr>)))"

text \<open>The loop of \<open>block_writes\<close>: one \<open>block_write\<close> per entry, each with the
  \<open>intermediate\<close> object (address \<open>0\<close> here) as its callback.\<close>

fun block_writes_loop ::
  "'s serializer_t \<Rightarrow> file_account_ptr \<Rightarrow> block_write_info_t list \<Rightarrow>
   counted_t list \<times> 's fan_state \<Rightarrow> counted_t list \<times> 's fan_state" where
  "block_writes_loop S io_account [] (ret, st) = (ret, st)"
| "block_writes_loop S io_account (it # its) (ret, st) =
     (let (tok, s1) = block_write S (fan_ser st) (info_buf it) (info_block_id it) io_account 0
      in block_writes_loop S io_account its
           (ret @ [tok],
            st\<lparr>fan_ser := s1, issued := issued st @ [(info_buf it, info_block_id it, io_account)]\<rparr>))"

definition block_writes ::
  "'s serializer_t \<Rightarrow> block_write_info_t list \<Rightarrow> file_account_ptr \<Rightarrow> iocallback_ptr \<Rightarrow> 's \<Rightarrow>
   counted_t list \<times> 's fan_state" where
  "block_writes S write_infos io_account cb s =
     (let st = \<lparr>fan_ser = s,
                intermediate = Some \<lparr>countdown = length write_infos, callee = cb\<rparr>,
                issued = [], events = []\<rparr>
      in block_writes_loop S io_account write_infos ([], st))"

text \<open>The I/O layer completes the issued writes in some order, given by the positions of
  the writes; each completion calls \<open>on_io_complete\<close> of the one \<open>intermediate\<close> object.\<close>

fun fire_completions :: "nat list \<Rightarrow> 's fan_state \<Rightarrow> fault + 's fan_state" where
  "fire_completions [] st = Inr st"
| "fire_completions (i # order) st =
     (case intermediate_on_io_complete (st\<lparr>events := events st @ [Completed i]\<rparr>) of
        Inl f \<Rightarrow> Inl f
      | Inr st1 \<Rightarrow> fire_completions order st1)"

definition example_infos :: "block_write_info_t list" where
  "example_infos =
     [\<lparr>info_buf = 100, info_block_id = 1\<rparr>,
      \<lparr>info_buf = 101, info_block_id = 2\<rparr>,
      \<lparr>info_buf = 102, info_block_id = 3\<rparr>]"

section \<open>The data buffer wrapper \<open>serializer_data_ptr_t\<close>\<close>

text \<open>The wrapper holds \<open>ptr_\<close>, a scoped pointer that either owns a buffer or is empty;
  \<open>ptr_.has()\<close> is \<open>ptr \<noteq> None\<close>. \<open>serializer_t::malloc\<close> and \<open>serializer_t::clone\<close>
  are virtual and implemented elsewhere: both are parameters that hand out a buffer.
  \<open>rassert\<close> is the assertion of a build that keeps assertions.\<close>

type_synonym 'b serializer_data_ptr_t = "'b option"

record ('s, 'b) allocator_t =
  ser_malloc :: "'s \<Rightarrow> 'b \<times> 's"
  ser_clone :: "'s \<Rightarrow> 'b \<Rightarrow> 'b \<times> 's"

definition data_ptr_free :: "'b serializer_data_ptr_t \<Rightarrow> fault + 'b serializer_data_ptr_t" where
  "data_ptr_free ptr = (if \<not> (ptr \<noteq> None) then Inl Rassert_failed else Inr None)"

definition init_malloc ::
  "('s, 'b) allocator_t \<Rightarrow> 's \<Rightarrow> 'b serializer_data_ptr_t \<Rightarrow> fault + ('b serializer_data_ptr_t \<times> 's)" where
  "init_malloc A s ptr =
     (if ptr \<noteq> None then Inl Rassert_failed
      else (let (b, s1) = ser_malloc A s in Inr (Some b, s1)))"

definition init_clone ::
  "('s, 'b) allocator_t \<Rightarrow> 's \<Rightarrow> 'b serializer_data_ptr_t \<Rightarrow> 'b serializer_data_ptr_t \<Rightarrow>
   fault + ('b serializer_data_ptr_t \<times> 's)" where
  "init_clone A s other ptr =
     (case other of
        None \<Rightarrow> Inl Rassert_failed
      | Some ob \<Rightarrow>
          if ptr \<noteq> None then Inl Rassert_failed
          else (let (b, s1) = ser_clone A s ob in Inr (Some b, s1)))"

text \<open>A sequence of operations on one wrapper; \<open>Init_clone\<close> carries the \<open>ptr_\<close> of the
  wrapper cloned from.\<close>

datatype 'b ptr_op = Init_malloc | Init_clone "'b serializer_data_ptr_t" | Free

fun run_ptr_ops ::
  "('s, 'b) allocator_t \<Rightarrow> 'b ptr_op list \<Rightarrow> 'b serializer_data_ptr_t \<times> 's \<Rightarrow>
   fault + ('b serializer_data_ptr_t \<times> 's)" where
  "run_ptr_ops A [] (ptr, s) = Inr (ptr, s)"
| "run_ptr_ops A (Init_malloc # ops) (ptr, s) =
     (case init_malloc A s ptr of Inl f \<Rightarrow> Inl f | Inr st \<Rightarrow> run_ptr_ops A ops st)"
| "run_ptr_ops A (Init_clone other # ops) (ptr, s) =
     (case init_clone A s other ptr of Inl f \<Rightarrow> Inl f | Inr st \<Rightarrow> run_ptr_ops A ops st)"
| "run_ptr_ops A (Free # ops) (ptr, s) =
     (case data_ptr_free ptr of Inl f \<Rightarrow> Inl f | Inr ptr1 \<Rightarrow> run_ptr_ops A ops (ptr1, s))"

text \<open>The discipline of the spec: on a wrapper that starts empty, one allocation or one
  clone from a wrapper that owns a buffer, then one release, and so on in turns.\<close>

fun is_init :: "'b ptr_op \<Rightarrow> bool" where
  "is_init Init_malloc = True"
| "is_init (Init_clone other) = (other \<noteq> None)"
| "is_init Free = False"

fun disciplined :: "'b ptr_op list \<Rightarrow> bool" where
  "disciplined [] = True"
| "disciplined [i] = is_init i"
| "disciplined (i # Free # ops) = (is_init i \<and> disciplined ops)"
| "disciplined (i # j # ops) = False"

definition counting_allocator :: "(nat, nat) allocator_t" where
  "counting_allocator = \<lparr>ser_malloc = (\<lambda>s. (s, Suc s)), ser_clone = (\<lambda>s b. (s, Suc s))\<rparr>"

section \<open>The table configuration backend (clustering/administration/tables/table_config.cc)\<close>

subsection \<open>Data model and collaborators\<close>

text \<open>\<open>table_config_t::shard_t\<close>: a \<open>std::set\<close> of replica names and a \<open>std::vector\<close> of
  director names. \<open>'n\<close> stands for \<open>name_string_t\<close>.\<close>

record 'n shard_t =
  replica_names :: "'n set"
  director_names :: "'n list"

text \<open>The datum type \<open>ql::datum_t\<close> (\<open>'d\<close>), the object builder (\<open>'b\<close>), the converter
  \<open>converter_from_datum_object_t\<close> (\<open>'c\<close>) and the conversion helpers of
  \<open>datum_adapter.hpp\<close> are declared and defined in other files. They are
  parameters of the model, collected in one record. A conversion from a datum returns
  \<open>Inr\<close> of the value where the source returns \<open>true\<close>, and \<open>Inl\<close> of the text left in
  \<open>error_out\<close> where it returns \<open>false\<close>. The converter is an object with state (the keys
  not yet asked for), so \<open>converter_get\<close> returns the converter as well.\<close>

record ('n, 'd, 'b, 'c) datum_adapter =
  builder_new :: 'b
  overwrite :: "'b \<Rightarrow> string \<Rightarrow> 'd \<Rightarrow> 'b"
  to_datum :: "'b \<Rightarrow> 'd"
  converter_init :: "'d \<Rightarrow> string + 'c"
  converter_get :: "'c \<Rightarrow> string \<Rightarrow> string + ('d \<times> 'c)"
  check_no_extra_keys :: "'c \<Rightarrow> string + unit"
  has :: "'d \<Rightarrow> bool"
  is_array :: "'d \<Rightarrow> bool"
  print :: "'d \<Rightarrow> string"
  c_str :: "'n \<Rightarrow> string"
  convert_name_to_datum :: "'n \<Rightarrow> 'd"
  convert_name_from_datum :: "'d \<Rightarrow> string \<Rightarrow> string + 'n"
  convert_set_to_datum :: "('n \<Rightarrow> 'd) \<Rightarrow> 'n set \<Rightarrow> 'd"
  convert_vector_to_datum :: "('n \<Rightarrow> 'd) \<Rightarrow> 'n list \<Rightarrow> 'd"
  convert_set_from_datum :: "('d \<Rightarrow> string + 'n) \<Rightarrow> bool \<Rightarrow> 'd \<Rightarrow> string + 'n set"
  convert_vector_from_datum :: "('d \<Rightarrow> string + 'n) \<Rightarrow> 'd \<Rightarrow> string + 'n list"
  convert_shards_from_datum :: "('d \<Rightarrow> string + 'n shard_t) \<Rightarrow> 'd \<Rightarrow> string + 'n shard_t list"
  convert_uuid_from_datum :: "'d \<Rightarrow> string + nat"
  convert_string_from_datum :: "'d \<Rightarrow> string + string"

subsection \<open>Shards to and from datums\<close>

definition convert_table_config_shard_to_datum ::
  "('n, 'd, 'b, 'c) datum_adapter \<Rightarrow> 'n shard_t \<Rightarrow> 'd" where
  "convert_table_config_shard_to_datum A shard =
     (let builder = builder_new A;
          builder1 = overwrite A builder ''replicas''
                       (convert_set_to_datum A (convert_name_to_datum A) (replica_names shard));
          builder2 = overwrite A builder1 ''directors''
                       (convert_vector_to_datum A (convert_name_to_datum A) (director_names shard))
      in to_datum A builder2)"

text \<open>The loop at the end of \<open>convert_table_config_shard_from_datum\<close>; \<open>Some\<close> is the
  error of the first director that fails a check. On a \<open>std::set\<close>, \<open>count\<close> is 0 or 1.\<close>

fun check_directors :: "('n \<Rightarrow> string) \<Rightarrow> 'n set \<Rightarrow> 'n list \<Rightarrow> 'n set \<Rightarrow> string option" where
  "check_directors cstr replicas [] director_names_seen = None"
| "check_directors cstr replicas (director # rest) director_names_seen =
     (if director \<notin> replicas
      then Some (''Server `'' @ cstr director @ ''` appears in `directors` but not in `replicas`.'')
      else if director \<in> director_names_seen
      then Some (''In `directors`: Server `'' @ cstr director @ ''` appears multiple times.'')
      else check_directors cstr replicas rest (insert director director_names_seen))"

text \<open>\<open>convert_table_config_shard_from_datum\<close>: \<open>Inr\<close> of the shard written to
  \<open>shard_out\<close> where the source returns \<open>true\<close>. What the source leaves in \<open>shard_out\<close>
  when it returns \<open>false\<close> is not kept.\<close>

definition convert_table_config_shard_from_datum ::
  "('n, 'd, 'b, 'c) datum_adapter \<Rightarrow> 'd \<Rightarrow> string + 'n shard_t" where
  "convert_table_config_shard_from_datum A datum =
     (case converter_init A datum of
        Inl e \<Rightarrow> Inl e
      | Inr converter \<Rightarrow>
     (case converter_get A converter ''replicas'' of
        Inl e \<Rightarrow> Inl e
      | Inr (replica_names_datum, converter1) \<Rightarrow>
     if \<not> is_array A replica_names_datum
     then Inl (''In `replicas`: Expected an array, got '' @ print A replica_names_datum)
     else
     (case convert_set_from_datum A
             (\<lambda>datum2. convert_name_from_datum A datum2 ''server name'') False replica_names_datum of
        Inl e \<Rightarrow> Inl (''In `replicas`: '' @ e)
      | Inr replicas \<Rightarrow>
     if replicas = {}
     then Inl ''You must specify at least one replica for each shard.''
     else
     (case converter_get A converter1 ''directors'' of
        Inl e \<Rightarrow> Inl e
      | Inr (director_names_datum, converter2) \<Rightarrow>
     (case convert_vector_from_datum A
             (\<lambda>datum2. convert_name_from_datum A datum2 ''server name'') director_names_datum of
        Inl e \<Rightarrow> Inl (''In `directors`: '' @ e)
      | Inr directors \<Rightarrow>
     if directors = []
     then Inl ''You must specify at least one director for each shard.''
     else
     (case check_no_extra_keys A converter2 of
        Inl e \<Rightarrow> Inl e
      | Inr u \<Rightarrow>
     (case check_directors (c_str A) replicas directors {} of
        Some e \<Rightarrow> Inl e
      | None \<Rightarrow> Inr \<lparr>replica_names = replicas, director_names = directors\<rparr>)))))))"

text \<open>What the shard conversions rely on in the absent helpers: a name survives the way
  to a datum and back; a set is written as an array and read back as the same set, a
  vector as the same vector, whenever the elements survive; an object built from two
  distinct keys is accepted by the converter, gives back the two values, and has no
  key left over.\<close>

definition adapter_ok :: "('n, 'd, 'b, 'c) datum_adapter \<Rightarrow> bool" where
  "adapter_ok A =
     ((\<forall>n what. convert_name_from_datum A (convert_name_to_datum A n) what = Inr n) \<and>
      (\<forall>to S. is_array A (convert_set_to_datum A to S)) \<and>
      (\<forall>to from S. finite S \<longrightarrow> (\<forall>x\<in>S. from (to x) = Inr x) \<longrightarrow>
          convert_set_from_datum A from False (convert_set_to_datum A to S) = Inr S) \<and>
      (\<forall>to from xs. (\<forall>x\<in>set xs. from (to x) = Inr x) \<longrightarrow>
          convert_vector_from_datum A from (convert_vector_to_datum A to xs) = Inr xs) \<and>
      (\<forall>k1 v1 k2 v2. k1 \<noteq> k2 \<longrightarrow>
          (\<exists>c0 c1 c2.
              converter_init A (to_datum A (overwrite A (overwrite A (builder_new A) k1 v1) k2 v2)) = Inr c0 \<and>
              converter_get A c0 k1 = Inr (v1, c1) \<and>
              converter_get A c1 k2 = Inr (v2, c2) \<and>
              check_no_extra_keys A c2 = Inr ())))"

subsection \<open>A test double for the datum helpers\<close>

text \<open>Datums as trees, names as numbers; objects are association lists. The double is
  used to show that the assumptions made on the absent helpers can be met, and to run
  the conversions on concrete rows.\<close>

datatype datum = Null | Name nat | Str string | Uuid nat | Array "datum list" | Object "(string \<times> datum) list"

fun from_all :: "(datum \<Rightarrow> string + 'a) \<Rightarrow> datum list \<Rightarrow> string + 'a list" where
  "from_all conv [] = Inr []"
| "from_all conv (d # ds) =
     (case conv d of
        Inl e \<Rightarrow> Inl e
      | Inr x \<Rightarrow> (case from_all conv ds of Inl e \<Rightarrow> Inl e | Inr xs \<Rightarrow> Inr (x # xs)))"

fun set_from_all :: "(datum \<Rightarrow> string + 'a) \<Rightarrow> bool \<Rightarrow> datum list \<Rightarrow> 'a set \<Rightarrow> string + 'a set" where
  "set_from_all conv allow_duplicates [] acc = Inr acc"
| "set_from_all conv allow_duplicates (d # ds) acc =
     (case conv d of
        Inl e \<Rightarrow> Inl e
      | Inr x \<Rightarrow>
          if \<not> allow_duplicates \<and> x \<in> acc then Inl ''was specified more than once.''
          else set_from_all conv allow_duplicates ds (insert x acc))"

fun test_init :: "datum \<Rightarrow> string + ((string \<times> datum) list \<times> string list)" where
  "test_init (Object kvs) = Inr (kvs, map fst kvs)"
| "test_init d = Inl ''Expected an object.''"

definition test_get ::
  "(string \<times> datum) list \<times> string list \<Rightarrow> string \<Rightarrow>
   string + (datum \<times> ((string \<times> datum) list \<times> string list))" where
  "test_get c k =
     (case map_of (fst c) k of
        None \<Rightarrow> Inl (''Expected a field named `'' @ k @ ''`.'')
      | Some v \<Rightarrow> Inr (v, (fst c, removeAll k (snd c))))"

fun test_name_from :: "datum \<Rightarrow> string \<Rightarrow> string + nat" where
  "test_name_from (Name n) what = Inr n"
| "test_name_from d what = Inl (''Expected a '' @ what)"

fun test_array_from :: "(datum list \<Rightarrow> string + 'a) \<Rightarrow> datum \<Rightarrow> string + 'a" where
  "test_array_from f (Array ds) = f ds"
| "test_array_from f d = Inl ''Expected an array.''"

fun test_uuid_from :: "datum \<Rightarrow> string + nat" where
  "test_uuid_from (Uuid u) = Inr u"
| "test_uuid_from d = Inl ''Expected a UUID.''"

fun test_string_from :: "datum \<Rightarrow> string + string" where
  "test_string_from (Str s) = Inr s"
| "test_string_from d = Inl ''Expected a string.''"

fun test_is_array :: "datum \<Rightarrow> bool" where
  "test_is_array (Array ds) = True"
| "test_is_array d = False"

definition test_adapter ::
  "(nat, datum, (string \<times> datum) list, (string \<times> datum) list \<times> string list) datum_adapter" where
  "test_adapter =
     \<lparr>builder_new = [],
      overwrite = (\<lambda>b k v. (k, v) # filter (\<lambda>p. fst p \<noteq> k) b),
      to_datum = Object,
      converter_init = test_init,
      converter_get = test_get,
      check_no_extra_keys = (\<lambda>c. if snd c = [] then Inr () else Inl ''Unexpected key(s).''),
      has = (\<lambda>d. d \<noteq> Null),
      is_array = test_is_array,
      print = (\<lambda>d. ''a datum''),
      c_str = (\<lambda>n. replicate n (CHR ''s'')),
      convert_name_to_datum = Name,
      convert_name_from_datum = test_name_from,
      convert_set_to_datum = (\<lambda>conv S. Array (map conv (sorted_list_of_set S))),
      convert_vector_to_datum = (\<lambda>conv xs. Array (map conv xs)),
      convert_set_from_datum = (\<lambda>conv allow. test_array_from (\<lambda>ds. set_from_all conv allow ds {})),
      convert_vector_from_datum = (\<lambda>conv. test_array_from (from_all conv)),
      convert_shards_from_datum = (\<lambda>conv. test_array_from (from_all conv)),
      convert_uuid_from_datum = test_uuid_from,
      convert_string_from_datum = test_string_from\<rparr>"

definition example_shard :: "nat shard_t" where
  "example_shard = \<lparr>replica_names = {1, 2, 3}, director_names = [2, 1]\<rparr>"

subsection \<open>The metadata of tables\<close>

text \<open>The metadata types are declared in \<open>metadata.hpp\<close> and other headers; they are modelled as
  far as \<open>write_row\<close> reads and writes them. A \<open>versioned_t<T>\<close> is represented by its
  value (\<open>get_ref\<close> reads it, \<open>set\<close> replaces it); \<open>deletable_t<T>\<close> is a live value or
  the deletion mark. UUIDs are numbers. \<open>'cd\<close> is the type of the chosen directors and
  \<open>'ss\<close> the type \<open>table_shard_scheme_t\<close>.\<close>

record 'n table_config_t =
  shards :: "'n shard_t list"

record ('n, 'cd, 'ss) table_replication_info_t =
  config :: "'n table_config_t"
  chosen_directors :: 'cd
  shard_scheme :: 'ss

record ('n, 'cd, 'ss) namespace_semilattice_metadata_t =
  name :: 'n
  database :: nat
  primary_key :: string
  replication_info :: "('n, 'cd, 'ss) table_replication_info_t"

datatype 'a deletable_t = Live 'a | Deleted

record ('n, 'cd, 'ss) namespaces_semilattice_metadata_t =
  namespaces :: "nat \<rightharpoonup> ('n, 'cd, 'ss) namespace_semilattice_metadata_t deletable_t"

datatype metadata_search_status_t =
  METADATA_SUCCESS | METADATA_ERR_NONE | METADATA_ERR_MULTIPLE | METADATA_CONFLICT

text \<open>What \<open>write_row\<close> calls on its object and on helpers defined in other files.
  \<open>search_metadata_by_uuid\<close> returns \<open>Some\<close> of the key its iterator points to where the
  source returns \<open>true\<close>; \<open>find_uniq\<close> stands for the search with a
  \<open>namespace_predicate_t\<close> on a table name and a database; \<open>sl_join\<close> is the join of the
  semilattice view with a value.\<close>

record ('n, 'cd, 'ss) backend =
  nil_uuid :: nat
  search_metadata_by_uuid ::
    "(nat \<rightharpoonup> ('n, 'cd, 'ss) namespace_semilattice_metadata_t deletable_t) \<Rightarrow> nat \<Rightarrow> nat option"
  get_db_name :: "nat \<Rightarrow> 'n"
  get_db_id :: "'n \<Rightarrow> string + nat"
  table_elect_directors :: "'n table_config_t \<Rightarrow> 'cd"
  calculate_split_points_intelligently :: "nat \<Rightarrow> nat \<Rightarrow> 'ss \<Rightarrow> string + 'ss"
  one_shard :: 'ss
  find_uniq ::
    "(nat \<rightharpoonup> ('n, 'cd, 'ss) namespace_semilattice_metadata_t deletable_t) \<Rightarrow> 'n \<Rightarrow> nat \<Rightarrow>
     metadata_search_status_t"
  sl_join ::
    "('n, 'cd, 'ss) namespaces_semilattice_metadata_t \<Rightarrow>
     ('n, 'cd, 'ss) namespaces_semilattice_metadata_t \<Rightarrow>
     ('n, 'cd, 'ss) namespaces_semilattice_metadata_t"

subsection \<open>Rows of \<open>rethinkdb.table_config\<close>\<close>

text \<open>\<open>convert_table_config_and_name_from_datum\<close>: \<open>Inr\<close> of the table name, the
  database name, the UUID, the configuration and the primary key.\<close>

definition convert_table_config_and_name_from_datum ::
  "('n, 'd, 'b, 'c) datum_adapter \<Rightarrow> 'd \<Rightarrow> string + ('n \<times> 'n \<times> nat \<times> 'n table_config_t \<times> string)" where
  "convert_table_config_and_name_from_datum A datum =
     (case converter_init A datum of
        Inl e \<Rightarrow> Inl e
      | Inr converter \<Rightarrow>
     (case converter_get A converter ''name'' of
        Inl e \<Rightarrow> Inl e
      | Inr (name_datum, converter1) \<Rightarrow>
     (case convert_name_from_datum A name_datum ''table name'' of
        Inl e \<Rightarrow> Inl (''In `name`: '' @ e)
      | Inr table_name \<Rightarrow>
     (case converter_get A converter1 ''db'' of
        Inl e \<Rightarrow> Inl e
      | Inr (db_datum, converter2) \<Rightarrow>
     (case convert_name_from_datum A db_datum ''database name'' of
        Inl e \<Rightarrow> Inl (''In `db`: '' @ e)
      | Inr db_name \<Rightarrow>
     (case converter_get A converter2 ''uuid'' of
        Inl e \<Rightarrow> Inl e
      | Inr (uuid_datum, converter3) \<Rightarrow>
     (case convert_uuid_from_datum A uuid_datum of
        Inl e \<Rightarrow> Inl (''In `uuid`: '' @ e)
      | Inr uuid \<Rightarrow>
     (case converter_get A converter3 ''primary_key'' of
        Inl e \<Rightarrow> Inl e
      | Inr (primary_key_datum, converter4) \<Rightarrow>
     (case convert_string_from_datum A primary_key_datum of
        Inl e \<Rightarrow> Inl (''In `primary_key`: '' @ e)
      | Inr pkey \<Rightarrow>
     (case converter_get A converter4 ''shards'' of
        Inl e \<Rightarrow> Inl e
      | Inr (shards_datum, converter5) \<Rightarrow>
     (case convert_shards_from_datum A (convert_table_config_shard_from_datum A) shards_datum of
        Inl e \<Rightarrow> Inl (''In `shards`: '' @ e)
      | Inr shs \<Rightarrow>
     if shs = []
     then Inl ''In `shards`: You must specify at least one shard.''
     else
     (case check_no_extra_keys A converter5 of
        Inl e \<Rightarrow> Inl e
      | Inr u \<Rightarrow> Inr (table_name, db_name, uuid, \<lparr>shards = shs\<rparr>, pkey)))))))))))))"

text \<open>The state \<open>write_row\<close> works on: the value published in \<open>table_sl_view\<close>, and
  \<open>md\<close>, the copy-on-write copy of it that the function obtains with \<open>get()\<close> and changes
  through \<open>md_change\<close>. The function ends by a failed \<open>guarantee\<close>, by \<open>return false\<close> with
  a text in \<open>error_out\<close>, or by \<open>return true\<close>; the state is the one at that point.\<close>

record 'm row_state =
  sl_view :: 'm
  md :: 'm

datatype 'st outcome = Guarantee_fails | Returns_false string 'st | Returns_true 'st

text \<open>\<open>table_sl_view->join(md)\<close>\<close>

definition join_view :: "('n, 'cd, 'ss) backend \<Rightarrow>
    ('n, 'cd, 'ss) namespaces_semilattice_metadata_t row_state \<Rightarrow>
    ('n, 'cd, 'ss) namespaces_semilattice_metadata_t row_state" where
  "join_view B st = st\<lparr>sl_view := sl_join B (sl_view st) (md st)\<rparr>"

text \<open>\<open>table_config_artificial_table_backend_t::write_row\<close>. The parameter \<open>primary_key\<close>
  of the source is \<open>row_key\<close> here. The source tests \<open>existed_before\<close> again at each
  step of the branch \<open>new_value.has()\<close>; the model splits on it once and lists, in each
  of the two cases, the steps in the order of the source: \<open>write_row_existing\<close> are the
  steps taken with \<open>existed_before\<close> true, \<open>write_row_new\<close> those with it false, both from
  the first test of \<open>existed_before\<close> to the end of the function. The iterator \<open>it\<close> is
  the key of its entry: \<open>get_ref\<close> on an entry that is missing or deleted is a failed
  check. The switch to the home thread and the interruptor are left out.\<close>

definition write_row_existing ::
  "('n, 'd, 'b, 'c) datum_adapter \<Rightarrow> ('n, 'cd, 'ss) backend \<Rightarrow> bool \<Rightarrow> nat \<Rightarrow> nat \<Rightarrow>
   'n \<Rightarrow> 'n \<Rightarrow> 'n table_config_t \<Rightarrow> string \<Rightarrow>
   ('n, 'cd, 'ss) namespaces_semilattice_metadata_t row_state \<Rightarrow>
   ('n, 'cd, 'ss) namespaces_semilattice_metadata_t row_state outcome" where
  "write_row_existing A B pkey_was_autogenerated table_id k new_table_name new_db_name cfg
       new_primary_key st =
     (if pkey_was_autogenerated then Guarantee_fails
      else
      (case namespaces (md st) k of
         None \<Rightarrow> Guarantee_fails
       | Some Deleted \<Rightarrow> Guarantee_fails
       | Some (Live entry) \<Rightarrow>
      (let db_id = database entry in
       if new_db_name \<noteq> get_db_name B db_id
       then Returns_false ''It's illegal to change a table's `database` field.'' st
       else
       if new_primary_key \<noteq> primary_key entry
       then Returns_false ''It's illegal to change a table's primary key.'' st
       else
      (let directors = table_elect_directors B cfg;
           prev = replication_info entry in
       case calculate_split_points_intelligently B table_id (length (shards cfg))
              (shard_scheme prev) of
         Inl e \<Rightarrow> Returns_false e st
       | Inr scheme \<Rightarrow>
      (let new_info = \<lparr>config = cfg, chosen_directors = directors, shard_scheme = scheme\<rparr>;
           old_table_name = name entry in
       if new_table_name \<noteq> old_table_name \<and>
          find_uniq B (namespaces (md st)) new_table_name db_id \<noteq> METADATA_ERR_NONE
       then Returns_false
              (''Cannot rename table `'' @ c_str A new_db_name @ ''.'' @ c_str A old_table_name @
               ''` to `'' @ c_str A new_db_name @ ''.'' @ c_str A new_table_name @
               ''` because table `'' @ c_str A new_db_name @ ''.'' @ c_str A new_table_name @
               ''` already exists.'') st
       else
      (let entry1 = entry\<lparr>name := new_table_name\<rparr>;
           entry2 = entry1\<lparr>replication_info := new_info\<rparr>;
           st1 = st\<lparr>md := (md st)\<lparr>namespaces := (namespaces (md st))(k \<mapsto> Live entry2)\<rparr>\<rparr>
       in Returns_true (join_view B st1)))))))"

definition write_row_new ::
  "('n, 'd, 'b, 'c) datum_adapter \<Rightarrow> ('n, 'cd, 'ss) backend \<Rightarrow> bool \<Rightarrow> nat \<Rightarrow>
   'n \<Rightarrow> 'n \<Rightarrow> 'n table_config_t \<Rightarrow> string \<Rightarrow>
   ('n, 'cd, 'ss) namespaces_semilattice_metadata_t row_state \<Rightarrow>
   ('n, 'cd, 'ss) namespaces_semilattice_metadata_t row_state outcome" where
  "write_row_new A B pkey_was_autogenerated table_id new_table_name new_db_name cfg
       new_primary_key st =
     (if \<not> pkey_was_autogenerated
      then Returns_false ''If you want to create a new table by inserting into `rethinkdb.table_config`, you must use an auto-generated primary key.'' st
      else
      if namespaces (md st) table_id \<noteq> None then Guarantee_fails
      else
      (case get_db_id B new_db_name of
         Inl e \<Rightarrow> Returns_false e st
       | Inr db_id \<Rightarrow>
      (let directors = table_elect_directors B cfg in
       if length (shards cfg) \<noteq> 1
       then Returns_false ''Newly created tables must start with exactly one shard'' st
       else
      (let new_info = \<lparr>config = cfg, chosen_directors = directors, shard_scheme = one_shard B\<rparr> in
       if find_uniq B (namespaces (md st)) new_table_name db_id \<noteq> METADATA_ERR_NONE
       then Returns_false
              (''Table `'' @ c_str A new_db_name @ ''.'' @ c_str A new_table_name @
               ''` already exists.'') st
       else
      (let table_md = \<lparr>name = new_table_name, database = db_id,
                        primary_key = new_primary_key, replication_info = new_info\<rparr>;
           st1 = st\<lparr>md := (md st)\<lparr>namespaces := (namespaces (md st))(table_id \<mapsto> Live table_md)\<rparr>\<rparr>
       in Returns_true (join_view B st1))))))"

definition write_row ::
  "('n, 'd, 'b, 'c) datum_adapter \<Rightarrow> ('n, 'cd, 'ss) backend \<Rightarrow> 'd \<Rightarrow> bool \<Rightarrow> 'd \<Rightarrow>
   ('n, 'cd, 'ss) namespaces_semilattice_metadata_t \<Rightarrow>
   ('n, 'cd, 'ss) namespaces_semilattice_metadata_t row_state outcome" where
  "write_row A B row_key pkey_was_autogenerated new_value v =
     (let st = \<lparr>sl_view = v, md = v\<rparr> in
      case (case convert_uuid_from_datum A row_key of
              Inr u \<Rightarrow> Some u
            | Inl dummy_error \<Rightarrow> if pkey_was_autogenerated then None else Some (nil_uuid B)) of
        None \<Rightarrow> Guarantee_fails
      | Some table_id \<Rightarrow>
     (let it = search_metadata_by_uuid B (namespaces (md st)) table_id in
      if has A new_value then
        (case convert_table_config_and_name_from_datum A new_value of
           Inl e \<Rightarrow>
             Returns_false (''The change you're trying to make to `rethinkdb.table_config` has the wrong format. '' @ e) st
         | Inr (new_table_name, new_db_name, new_table_id, cfg, new_primary_key) \<Rightarrow>
        if new_table_id \<noteq> table_id then Guarantee_fails
        else
        (case it of
           Some k \<Rightarrow>
             write_row_existing A B pkey_was_autogenerated table_id k new_table_name new_db_name
               cfg new_primary_key st
         | None \<Rightarrow>
             write_row_new A B pkey_was_autogenerated table_id new_table_name new_db_name
               cfg new_primary_key st))
      else
        (case it of
           Some k \<Rightarrow>
             if pkey_was_autogenerated then Guarantee_fails
             else
             (let st1 = st\<lparr>md := (md st)\<lparr>namespaces := (namespaces (md st))(k \<mapsto> Deleted)\<rparr>\<rparr>
              in Returns_true (join_view B st1))
         | None \<Rightarrow> Returns_true (join_view B st))))"

text \<open>What the claim on \<open>write_row\<close> says of an outcome, for the value \<open>v\<close> that the view
  held at the call.\<close>

definition outcome_ok ::
  "('n, 'cd, 'ss) backend \<Rightarrow> ('n, 'cd, 'ss) namespaces_semilattice_metadata_t \<Rightarrow>
   ('n, 'cd, 'ss) namespaces_semilattice_metadata_t row_state outcome \<Rightarrow> bool" where
  "outcome_ok B v out =
     (case out of
        Guarantee_fails \<Rightarrow> True
      | Returns_false e st \<Rightarrow> sl_view st = v \<and> md st = v
      | Returns_true st \<Rightarrow> sl_view st = sl_join B v (md st))"

subsection \<open>A test double for the backend\<close>

definition test_backend :: "(nat, nat list, nat) backend" where
  "test_backend =
     \<lparr>nil_uuid = 0,
      search_metadata_by_uuid = (\<lambda>m u. case m u of Some (Live x) \<Rightarrow> Some u | _ \<Rightarrow> None),
      get_db_name = (\<lambda>db. db),
      get_db_id = (\<lambda>n. Inr n),
      table_elect_directors = (\<lambda>cfg. map (\<lambda>sh. hd (director_names sh)) (shards cfg)),
      calculate_split_points_intelligently = (\<lambda>table_id n prev. Inr n),
      one_shard = 1,
      find_uniq = (\<lambda>m n db. METADATA_ERR_NONE),
      sl_join = (\<lambda>a b. \<lparr>namespaces = namespaces a ++ namespaces b\<rparr>)\<rparr>"

definition empty_metadata :: "(nat, nat list, nat) namespaces_semilattice_metadata_t" where
  "empty_metadata = \<lparr>namespaces = Map.empty\<rparr>"

definition example_row :: datum where
  "example_row =
     Object [(''name'', Name 10), (''db'', Name 20), (''uuid'', Uuid 7), (''primary_key'', Str ''id''),
             (''shards'', Array [Object [(''replicas'', Array [Name 1, Name 2]),
                                         (''directors'', Array [Name 2])]])]"

section \<open>Verified properties\<close>

subsection \<open>The write pipeline\<close>

lemma written_conds_append: "written_conds (xs @ ys) = written_conds xs @ written_conds ys"
  by (induction xs rule: written_conds.induct) auto

lemma written_blocks_append: "written_blocks (xs @ ys) = written_blocks xs @ written_blocks ys"
  by (induction xs rule: written_blocks.induct) auto

lemma trace_emit: "trace (emit c w) = trace w @ [c]"
  by (simp add: emit_def)

lemma perform_write_shape:
  assumes "perform_write write S acct (conds, op, w) = (conds', op', w')"
  shows "\<exists>T. trace w' = trace w @ T \<and> list_all issue_call T \<and>
             conds' = conds @ written_conds T \<and>
             written_blocks T = (if is_update write then [op_block_id op] else []) \<and>
             op_block_id op' = op_block_id op"
  using assms
  by (auto simp: new_write_cond_def emit_def Let_def split: action_t.splits prod.splits option.splits)

lemma perform_write_matches:
  assumes "perform_write write S acct (conds, op, w) = (conds', op', w')"
    and "op = index_write_op (block_id write)"
  shows "op_matches write op'"
  using assms
  by (auto simp: op_matches_def index_write_op_def new_write_cond_def emit_def Let_def split: action_t.splits prod.splits option.splits)

lemma issue_writes_shape:
  "issue_writes S acct writes (conds, ops, w) = (conds', ops', w') \<Longrightarrow>
   \<exists>T ops1. trace w' = trace w @ T \<and> list_all issue_call T \<and>
          conds' = conds @ written_conds T \<and>
          written_blocks T = map block_id (filter is_update writes) \<and>
          ops' = ops @ ops1 \<and> list_all2 op_matches writes ops1"
proof (induction writes arbitrary: conds ops w)
  case Nil
  then show ?case by simp
next
  case (Cons wr writes)
  obtain c1 o1 w1 where pw: "perform_write wr S acct (conds, index_write_op (block_id wr), w) = (c1, o1, w1)"
    by (metis prod_cases3)
  with Cons.prems have rest: "issue_writes S acct writes (c1, ops @ [o1], w1) = (conds', ops', w')"
    by (simp add: Let_def)
  from perform_write_shape[OF pw] obtain T1 where T1: "trace w1 = trace w @ T1" "list_all issue_call T1"
    "c1 = conds @ written_conds T1"
    "written_blocks T1 = (if is_update wr then [op_block_id (index_write_op (block_id wr))] else [])"
    by blast
  have m: "op_matches wr o1" using perform_write_matches[OF pw] by simp
  from Cons.IH[OF rest] obtain T2 ops2 where T2: "trace w' = trace w1 @ T2" "list_all issue_call T2"
    "conds' = c1 @ written_conds T2" "written_blocks T2 = map block_id (filter is_update writes)"
    "ops' = (ops @ [o1]) @ ops2" "list_all2 op_matches writes ops2"
    by blast
  have "trace w' = trace w @ (T1 @ T2)" using T1 T2 by simp
  moreover have "list_all issue_call (T1 @ T2)" using T1 T2 by simp
  moreover have "conds' = conds @ written_conds (T1 @ T2)" using T1 T2 by (simp add: written_conds_append)
  moreover have "written_blocks (T1 @ T2) = map block_id (filter is_update (wr # writes))"
    using T1 T2 by (simp add: written_blocks_append index_write_op_def)
  moreover have "ops' = ops @ (o1 # ops2)" using T2 by simp
  moreover have "list_all2 op_matches (wr # writes) (o1 # ops2)" using m T2 by simp
  ultimately show ?case by blast
qed

lemma created_conds_append: "created_conds (xs @ ys) = created_conds xs @ created_conds ys"
  by (induction xs rule: created_conds.induct) auto

lemma launched_append: "launched (xs @ ys) = launched xs @ launched ys"
  by (induction xs rule: launched.induct) auto

lemma perform_write_launched:
  assumes "perform_write wr S acct (conds, op, w) = (conds', op', w')"
  shows "\<exists>T. trace w' = trace w @ T \<and> launched T = op_launch wr op' \<and> created_conds T = written_conds T"
  using assms
  by (auto simp: new_write_cond_def emit_def Let_def op_launch_def token_get_def
      split: action_t.splits prod.splits option.splits)

lemma issue_writes_launched:
  "issue_writes S acct writes (conds, ops, w) = (conds', ops', w') \<Longrightarrow>
   \<exists>T ops1. trace w' = trace w @ T \<and> ops' = ops @ ops1 \<and> length ops1 = length writes \<and>
      launched T = concat (map2 op_launch writes ops1) \<and> created_conds T = written_conds T"
proof (induction writes arbitrary: conds ops w)
  case Nil
  then show ?case by simp
next
  case (Cons wr writes)
  obtain c1 o1 w1 where pw: "perform_write wr S acct (conds, index_write_op (block_id wr), w) = (c1, o1, w1)"
    by (metis prod_cases3)
  with Cons.prems have rest: "issue_writes S acct writes (c1, ops @ [o1], w1) = (conds', ops', w')"
    by (simp add: Let_def)
  from perform_write_launched[OF pw] obtain T1 where T1: "trace w1 = trace w @ T1"
    "launched T1 = op_launch wr o1" "created_conds T1 = written_conds T1"
    by blast
  from Cons.IH[OF rest] obtain T2 ops2 where T2: "trace w' = trace w1 @ T2"
    "ops' = (ops @ [o1]) @ ops2" "length ops2 = length writes"
    "launched T2 = concat (map2 op_launch writes ops2)" "created_conds T2 = written_conds T2"
    by blast
  have "trace w' = trace w @ (T1 @ T2)" using T1 T2 by simp
  moreover have "ops' = ops @ (o1 # ops2)" using T2 by simp
  moreover have "length (o1 # ops2) = length (wr # writes)" using T2 by simp
  moreover have "launched (T1 @ T2) = concat (map2 op_launch (wr # writes) (o1 # ops2))"
    using T1 T2 by (simp add: launched_append)
  moreover have "created_conds (T1 @ T2) = written_conds (T1 @ T2)"
    using T1 T2 by (simp add: created_conds_append written_conds_append)
  ultimately show ?case by blast
qed

lemma wait_writes_trace: "trace (wait_writes cs w) = trace w @ wait_calls cs"
  by (induction cs arbitrary: w) (simp_all add: emit_def)

lemma do_writes_shape:
  "\<exists>T ops. trace (do_writes S writes acct w) = trace w @ T @ wait_calls (written_conds T) @ [Index_write ops acct] \<and>
     list_all issue_call T \<and>
     created_conds T = written_conds T \<and>
     written_blocks T = map block_id (filter is_update writes) \<and>
     list_all2 op_matches writes ops \<and>
     launched T = concat (map2 op_launch writes ops)"
proof -
  obtain conds ops w1 where iw: "issue_writes S acct writes ([], [], w) = (conds, ops, w1)"
    by (metis prod_cases3)
  from issue_writes_shape[OF iw] obtain T ops1 where T: "trace w1 = trace w @ T" "list_all issue_call T"
    "conds = [] @ written_conds T" "written_blocks T = map block_id (filter is_update writes)"
    "ops = [] @ ops1" "list_all2 op_matches writes ops1"
    by blast
  from issue_writes_launched[OF iw] obtain T' ops2 where T': "trace w1 = trace w @ T'" "ops = [] @ ops2"
    "launched T' = concat (map2 op_launch writes ops2)" "created_conds T' = written_conds T'"
    by blast
  have same: "T' = T" "ops2 = ops" "ops1 = ops" using T T' by simp_all
  have "trace (do_writes S writes acct w) = trace w @ T @ wait_calls (written_conds T) @ [Index_write ops acct]"
    using iw T by (simp add: do_writes_def emit_def wait_writes_trace Let_def)
  moreover have "created_conds T = written_conds T" using T' same by simp
  moreover have "list_all2 op_matches writes ops" using T same by simp
  moreover have "launched T = concat (map2 op_launch writes ops)" using T' same by simp
  ultimately show ?thesis using T(2,4) by blast
qed

lemma issue_call_not_index_write: "list_all issue_call T \<Longrightarrow> filter is_index_write T = []"
  by (induction T rule: created_conds.induct) auto

lemma wait_calls_not_index_write: "filter is_index_write (wait_calls cs) = []"
  by (induction cs) auto

text \<open>
  Claim C1. Whatever the descriptors are, the calls that one invocation of \<open>do_writes\<close>
  adds to the trace end with an \<open>index_write\<close> and contain no other one; the list of
  operations passed to it has one entry per descriptor, in the order of the descriptors,
  and entry \<open>i\<close> carries the block identifier of descriptor \<open>i\<close>.
\<close>

theorem do_writes_one_index_write:
  "\<exists>T ops. trace (do_writes S writes acct w) = trace w @ T @ [Index_write ops acct] \<and>
            filter is_index_write T = [] \<and>
            length ops = length writes \<and>
            map op_block_id ops = map block_id writes"
proof -
  from do_writes_shape[of S writes acct w] obtain T ops where
    sh: "trace (do_writes S writes acct w) = trace w @ T @ wait_calls (written_conds T) @ [Index_write ops acct]"
    and ic: "list_all issue_call T" and m: "list_all2 op_matches writes ops"
    by blast
  have len: "length ops = length writes" using m by (simp add: list_all2_lengthD)
  have "\<forall>i<length ops. op_block_id (ops ! i) = block_id (writes ! i)"
    using m by (auto simp: list_all2_conv_all_nth op_matches_def)
  with len have ids: "map op_block_id ops = map block_id writes"
    by (simp add: list_eq_iff_nth_eq)
  have "filter is_index_write (T @ wait_calls (written_conds T)) = []"
    using ic by (simp add: issue_call_not_index_write wait_calls_not_index_write)
  with sh len ids show ?thesis
    by (metis append.assoc)
qed

lemma launched_set: "(l, t) \<in> set (launched T) \<Longrightarrow> On_write_launched l t \<in> set T"
  by (induction T rule: launched.induct) auto

lemma map2_nth_in_concat:
  "i < length xs \<Longrightarrow> length ys = length xs \<Longrightarrow> e \<in> set (f (xs ! i) (ys ! i)) \<Longrightarrow>
   e \<in> set (concat (map2 f xs ys))"
proof -
  assume a: "i < length xs" "length ys = length xs" "e \<in> set (f (xs ! i) (ys ! i))"
  then have "(xs ! i, ys ! i) \<in> set (zip xs ys)"
    by (metis length_zip min.idem nth_mem nth_zip)
  then show ?thesis using a by auto
qed

text \<open>
  Claim C5. For a DELETE descriptor at position \<open>i\<close> of the batch, the operation committed
  at position \<open>i\<close> has the descriptor's block identifier, the empty token and the invalid
  recency. The physical writes issued by the invocation are, in order, those of the UPDATE
  descriptors, and the synchronizers created are exactly the ones handed to these writes,
  so none belongs to the delete. On the descriptor itself \<open>perform_write\<close> sets the two
  fields and leaves the list of synchronizers and the world, hence the trace, as they were.
\<close>

theorem do_writes_delete:
  assumes "i < length writes" and "action (writes ! i) = DELETE"
  shows "(\<exists>T ops. trace (do_writes S writes acct w) =
                    trace w @ T @ wait_calls (written_conds T) @ [Index_write ops acct] \<and>
             list_all issue_call T \<and>
             ops ! i = \<lparr>op_block_id = block_id (writes ! i), token = Some None,
                        recency = Some repli_timestamp_invalid\<rparr> \<and>
             written_blocks T = map block_id (filter is_update writes) \<and>
             created_conds T = written_conds T \<and>
             length (created_conds T) = length (filter is_update writes)) \<and>
         perform_write (writes ! i) S acct (conds, op, w') =
           (conds, op\<lparr>token := Some None, recency := Some repli_timestamp_invalid\<rparr>, w')"
proof -
  from do_writes_shape[of S writes acct w] obtain T ops where
    sh: "trace (do_writes S writes acct w) = trace w @ T @ wait_calls (written_conds T) @ [Index_write ops acct]"
    and ic: "list_all issue_call T" and cc: "created_conds T = written_conds T"
    and wb: "written_blocks T = map block_id (filter is_update writes)"
    and m: "list_all2 op_matches writes ops"
    by blast
  have "op_matches (writes ! i) (ops ! i)"
    using m assms(1) by (simp add: list_all2_conv_all_nth)
  then have op: "ops ! i = \<lparr>op_block_id = block_id (writes ! i), token = Some None,
                        recency = Some repli_timestamp_invalid\<rparr>"
    using assms(2) by (simp add: op_matches_def)
  have "length (written_conds T) = length (written_blocks T)"
    by (induction T rule: written_conds.induct) auto
  then have len: "length (created_conds T) = length (filter is_update writes)"
    using cc wb by simp
  have pw: "perform_write (writes ! i) S acct (conds, op, w') =
           (conds, op\<lparr>token := Some None, recency := Some repli_timestamp_invalid\<rparr>, w')"
    using assms(2) by simp
  show ?thesis using sh ic op wb cc len pw by blast
qed

theorem do_writes_delete_witness:
  "1 < length example_writes \<and> action (example_writes ! 1) = DELETE \<and>
   ((\<exists>T ops. trace (do_writes counting_serializer example_writes 0 example_world) =
                    trace example_world @ T @ wait_calls (written_conds T) @ [Index_write ops 0] \<and>
             list_all issue_call T \<and>
             ops ! 1 = \<lparr>op_block_id = block_id (example_writes ! 1), token = Some None,
                        recency = Some repli_timestamp_invalid\<rparr> \<and>
             written_blocks T = map block_id (filter is_update example_writes) \<and>
             created_conds T = written_conds T \<and>
             length (created_conds T) = length (filter is_update example_writes)) \<and>
         perform_write (example_writes ! 1) counting_serializer 0 ([], index_write_op 2, example_world) =
           ([], (index_write_op 2)\<lparr>token := Some None, recency := Some repli_timestamp_invalid\<rparr>, example_world))"
proof -
  have h1: "1 < length example_writes" by (simp add: example_writes_def)
  have h2: "action (example_writes ! 1) = DELETE" by (simp add: example_writes_def make_delete_def)
  show ?thesis
    using h1 h2 do_writes_delete[OF h1 h2, of counting_serializer 0 example_world "[]" "index_write_op 2" example_world]
    by blast
qed

text \<open>
  Claim C6. For a TOUCH descriptor at position \<open>i\<close> with recency \<open>r\<close>, the operation
  committed at position \<open>i\<close> has recency \<open>r\<close> and the token field still absent, as the
  constructor left it. \<open>perform_write\<close> changes nothing but the recency field of whatever
  operation it is given, and leaves the synchronizers and the world untouched; physical
  writes and synchronizers of the invocation belong to the UPDATE descriptors only.
\<close>

theorem do_writes_touch:
  assumes "i < length writes" and "action (writes ! i) = TOUCH r"
  shows "(\<exists>T ops. trace (do_writes S writes acct w) =
                    trace w @ T @ wait_calls (written_conds T) @ [Index_write ops acct] \<and>
             list_all issue_call T \<and>
             ops ! i = \<lparr>op_block_id = block_id (writes ! i), token = None, recency = Some r\<rparr> \<and>
             written_blocks T = map block_id (filter is_update writes) \<and>
             created_conds T = written_conds T \<and>
             length (created_conds T) = length (filter is_update writes)) \<and>
         perform_write (writes ! i) S acct (conds, op, w') = (conds, op\<lparr>recency := Some r\<rparr>, w')"
proof -
  from do_writes_shape[of S writes acct w] obtain T ops where
    sh: "trace (do_writes S writes acct w) = trace w @ T @ wait_calls (written_conds T) @ [Index_write ops acct]"
    and ic: "list_all issue_call T" and cc: "created_conds T = written_conds T"
    and wb: "written_blocks T = map block_id (filter is_update writes)"
    and m: "list_all2 op_matches writes ops"
    by blast
  have "op_matches (writes ! i) (ops ! i)"
    using m assms(1) by (simp add: list_all2_conv_all_nth)
  then have op: "ops ! i = \<lparr>op_block_id = block_id (writes ! i), token = None, recency = Some r\<rparr>"
    using assms(2) by (simp add: op_matches_def)
  have "length (written_conds T) = length (written_blocks T)"
    by (induction T rule: written_conds.induct) auto
  then have len: "length (created_conds T) = length (filter is_update writes)"
    using cc wb by simp
  have pw: "perform_write (writes ! i) S acct (conds, op, w') = (conds, op\<lparr>recency := Some r\<rparr>, w')"
    using assms(2) by simp
  show ?thesis using sh ic op wb cc len pw by blast
qed

theorem do_writes_touch_witness:
  "2 < length example_writes \<and> action (example_writes ! 2) = TOUCH (repli_timestamp 9) \<and>
   ((\<exists>T ops. trace (do_writes counting_serializer example_writes 0 example_world) =
                    trace example_world @ T @ wait_calls (written_conds T) @ [Index_write ops 0] \<and>
             list_all issue_call T \<and>
             ops ! 2 = \<lparr>op_block_id = block_id (example_writes ! 2), token = None,
                        recency = Some (repli_timestamp 9)\<rparr> \<and>
             written_blocks T = map block_id (filter is_update example_writes) \<and>
             created_conds T = written_conds T \<and>
             length (created_conds T) = length (filter is_update example_writes)) \<and>
         perform_write (example_writes ! 2) counting_serializer 0
             ([], \<lparr>op_block_id = 3, token = Some (Some 41), recency = None\<rparr>, example_world) =
           ([], \<lparr>op_block_id = 3, token = Some (Some 41), recency = Some (repli_timestamp 9)\<rparr>, example_world))"
proof -
  have h1: "2 < length example_writes" by (simp add: example_writes_def)
  have h2: "action (example_writes ! 2) = TOUCH (repli_timestamp 9)"
    by (simp add: example_writes_def make_touch_def)
  show ?thesis
    using h1 h2 do_writes_touch[OF h1 h2, of counting_serializer 0 example_world "[]"
        "\<lparr>op_block_id = 3, token = Some (Some 41), recency = None\<rparr>" example_world]
    by simp
qed

text \<open>
  Claim C7. For an UPDATE descriptor at position \<open>i\<close> with launch callback \<open>l\<close>, the
  callback is called within the issue phase \<open>T\<close>, that is before the first \<open>wait\<close> and
  before \<open>index_write\<close>, with the token that the committed operation at position \<open>i\<close>
  records.
\<close>

theorem do_writes_launch_callback:
  assumes "i < length writes" and "action (writes ! i) = UPDATE buf r cb (Some l)"
  shows "\<exists>T ops tok. trace (do_writes S writes acct w) =
                    trace w @ T @ wait_calls (written_conds T) @ [Index_write ops acct] \<and>
             list_all issue_call T \<and>
             On_write_launched l tok \<in> set T \<and>
             token (ops ! i) = Some tok \<and>
             op_block_id (ops ! i) = block_id (writes ! i) \<and>
             recency (ops ! i) = Some r"
proof -
  from do_writes_shape[of S writes acct w] obtain T ops where
    sh: "trace (do_writes S writes acct w) = trace w @ T @ wait_calls (written_conds T) @ [Index_write ops acct]"
    and ic: "list_all issue_call T"
    and m: "list_all2 op_matches writes ops"
    and la: "launched T = concat (map2 op_launch writes ops)"
    by blast
  have len: "length ops = length writes" using m by (simp add: list_all2_lengthD)
  have om: "op_matches (writes ! i) (ops ! i)"
    using m assms(1) by (simp add: list_all2_conv_all_nth)
  then obtain tok where tok: "token (ops ! i) = Some tok"
    using assms(2) by (auto simp: op_matches_def)
  have "(l, tok) \<in> set (op_launch (writes ! i) (ops ! i))"
    using assms(2) tok by (simp add: op_launch_def token_get_def)
  then have "(l, tok) \<in> set (concat (map2 op_launch writes ops))"
    by (rule map2_nth_in_concat[OF assms(1) len])
  then have "(l, tok) \<in> set (launched T)"
    by (simp only: la)
  then have "On_write_launched l tok \<in> set T" by (rule launched_set)
  moreover have "op_block_id (ops ! i) = block_id (writes ! i)" "recency (ops ! i) = Some r"
    using om assms(2) by (simp_all add: op_matches_def)
  ultimately show ?thesis using sh ic tok by blast
qed

theorem do_writes_launch_callback_witness:
  "0 < length example_writes \<and> action (example_writes ! 0) = UPDATE 100 (repli_timestamp 5) None (Some 7) \<and>
   (\<exists>T ops tok. trace (do_writes counting_serializer example_writes 0 example_world) =
                    trace example_world @ T @ wait_calls (written_conds T) @ [Index_write ops 0] \<and>
             list_all issue_call T \<and>
             On_write_launched 7 tok \<in> set T \<and>
             token (ops ! 0) = Some tok \<and>
             op_block_id (ops ! 0) = block_id (example_writes ! 0) \<and>
             recency (ops ! 0) = Some (repli_timestamp 5))"
proof -
  have h1: "0 < length example_writes" by (simp add: example_writes_def)
  have h2: "action (example_writes ! 0) = UPDATE 100 (repli_timestamp 5) None (Some 7)"
    by (simp add: example_writes_def make_update_def)
  show ?thesis
    by (rule conjI[OF h1 conjI[OF h2 do_writes_launch_callback[OF h1 h2, of counting_serializer 0 example_world]]])
qed

lemma exec_call_inv:
  assumes "exec_call (prog ! pc st) st = Some st1" and "run_inv prog st" and "pc st < length prog"
  shows "run_inv prog (st1\<lparr>pc := Suc (pc st)\<rparr>)"
proof (cases "prog ! pc st")
  case (Wait c)
  with assms(1) obtain wc where wc: "heap st c = Some wc" "pulsed wc" "st1 = st"
    by (auto split: option.splits if_splits)
  with assms(2) have "c \<in> set (completed st)" by (auto simp: run_inv_def)
  with assms(2,3) wc Wait show ?thesis
    by (auto simp: run_inv_def less_Suc_eq)
next
  case (New_write_cond p cb)
  with assms show ?thesis by (auto simp: run_inv_def less_Suc_eq split: if_splits)
next
  case (Block_write b i a c)
  with assms show ?thesis by (auto simp: run_inv_def less_Suc_eq)
next
  case (On_write_launched l t)
  with assms show ?thesis by (auto simp: run_inv_def less_Suc_eq)
next
  case (Delete_write_cond c)
  with assms show ?thesis by (auto simp: run_inv_def less_Suc_eq split: if_splits)
next
  case (Index_write ops a)
  with assms show ?thesis by (auto simp: run_inv_def less_Suc_eq)
qed

lemma sched_step_inv:
  assumes "sched_step prog x st = Some st1" and "run_inv prog st"
  shows "run_inv prog st1"
proof (cases x)
  case Run
  with assms(1) obtain st0 where "pc st < length prog" "exec_call (prog ! pc st) st = Some st0"
    "st1 = st0\<lparr>pc := Suc (pc st)\<rparr>"
    by (auto split: if_splits option.splits)
  then show ?thesis using exec_call_inv assms(2) by blast
next
  case (Io_complete c)
  with assms show ?thesis
    by (auto simp: run_inv_def write_cond_on_io_complete_def Let_def split: if_splits option.splits)
qed

lemma run_sched_inv:
  "run_sched prog sch st = Some st1 \<Longrightarrow> run_inv prog st \<Longrightarrow> run_inv prog st1"
proof (induction sch arbitrary: st)
  case Nil
  then show ?case by simp
next
  case (Cons x xs)
  then obtain st0 where s: "sched_step prog x st = Some st0" "run_sched prog xs st0 = Some st1"
    by (auto split: option.splits)
  from sched_step_inv[OF s(1) Cons.prems(2)] have "run_inv prog st0" .
  with Cons.IH s(2) show ?case by blast
qed

lemma run_inv_init: "run_inv prog init_run"
  by (simp add: run_inv_def init_run_def)

lemma wait_calls_has_wait: "c \<in> set cs \<Longrightarrow> \<exists>k<length (wait_calls cs). wait_calls cs ! k = Wait c"
proof (induction cs)
  case Nil
  then show ?case by simp
next
  case (Cons a cs)
  show ?case
  proof (cases "c = a")
    case True
    then have "wait_calls (a # cs) ! 0 = Wait c" by simp
    then show ?thesis by (metis length_greater_0_conv list.distinct(1) wait_calls.simps(2))
  next
    case False
    with Cons obtain k where k: "k < length (wait_calls cs)" "wait_calls cs ! k = Wait c" by auto
    then have "Suc (Suc k) < length (wait_calls (a # cs))" "wait_calls (a # cs) ! Suc (Suc k) = Wait c"
      by simp_all
    then show ?thesis by blast
  qed
qed

lemma block_write_written: "Block_write b i a c \<in> set T \<Longrightarrow> c \<in> set (written_conds T)"
  by (induction T rule: written_conds.induct) auto

lemma wait_calls_no_block_write: "Block_write b i a c \<notin> set (wait_calls cs)"
  by (induction cs) auto

lemma no_index_write_nth: "filter is_index_write xs = [] \<Longrightarrow> k < length xs \<Longrightarrow> xs ! k \<noteq> Index_write ops a"
  by (metis filter_empty_conv is_index_write.simps(1) nth_mem)

text \<open>
  Claim C2. Let \<open>prog\<close> be the calls of one invocation of \<open>do_writes\<close>, run in program
  order against an I/O layer that completes writes in flight whenever it likes, a
  \<open>Wait\<close> passing only on a pulsed synchronizer. In every state that such a run reaches
  with the \<open>index_write\<close> already issued, each physical write of the invocation has
  completed, and the pipeline has waited on its synchronizer before the commit.
\<close>

theorem do_writes_commit_after_completions:
  assumes tr: "trace (do_writes S writes acct w) = trace w @ prog"
    and run: "run_sched prog sch init_run = Some st"
    and j: "j < pc st" "prog ! j = Index_write ops a"
    and bw: "Block_write buf bid a' c \<in> set prog"
  shows "c \<in> set (completed st) \<and> (\<exists>k<j. prog ! k = Wait c)"
proof -
  from do_writes_shape[of S writes acct w] obtain T ops' where
    sh: "trace (do_writes S writes acct w) = trace w @ T @ wait_calls (written_conds T) @ [Index_write ops' acct]"
    and ic: "list_all issue_call T"
    by blast
  let ?W = "wait_calls (written_conds T)"
  have prog: "prog = (T @ ?W) @ [Index_write ops' acct]" using sh tr by simp
  have inv: "run_inv prog st" using run_sched_inv[OF run run_inv_init] .
  then have pcle: "pc st \<le> length prog" by (simp add: run_inv_def)
  have nf: "filter is_index_write (T @ ?W) = []"
    using ic by (simp add: issue_call_not_index_write wait_calls_not_index_write)
  have jlast: "j = length (T @ ?W)"
  proof (rule ccontr)
    assume "j \<noteq> length (T @ ?W)"
    with j(1) pcle prog have jl: "j < length (T @ ?W)" by simp
    then have "prog ! j = (T @ ?W) ! j" using prog by (metis nth_append)
    with no_index_write_nth[OF nf jl] j(2) show False by simp
  qed
  from bw prog have "Block_write buf bid a' c \<in> set T"
    using wait_calls_no_block_write by auto
  then have "c \<in> set (written_conds T)" by (rule block_write_written)
  from wait_calls_has_wait[OF this] obtain k where k: "k < length ?W" "?W ! k = Wait c" by blast
  let ?k = "length T + k"
  have kj: "?k < j" using k jlast by simp
  have "(T @ ?W) ! ?k = Wait c" using k by (simp add: nth_append)
  moreover have "?k < length (T @ ?W)" using k by simp
  ultimately have pk: "prog ! ?k = Wait c" using prog by (metis nth_append)
  have "?k < pc st" using kj j(1) by simp
  moreover have "\<forall>k<pc st. \<forall>c. prog ! k = Wait c \<longrightarrow> c \<in> set (completed st)"
    using inv by (simp add: run_inv_def)
  ultimately have "c \<in> set (completed st)" using pk by blast
  with kj pk show ?thesis by blast
qed

theorem do_writes_commit_after_completions_witness:
  "trace (do_writes counting_serializer example_writes 0 example_world) = trace example_world @ example_prog \<and>
   run_sched example_prog [Run, Run, Run, Io_complete 0, Run, Run, Run] init_run =
     Some \<lparr>pc = 6, heap = (\<lambda>p. None), in_flight = [], completed = [0], forwarded = []\<rparr> \<and>
   (5::nat) < 6 \<and>
   example_prog ! 5 =
     Index_write
       [\<lparr>op_block_id = 1, token = Some (Some 0), recency = Some (repli_timestamp 5)\<rparr>,
        \<lparr>op_block_id = 2, token = Some None, recency = Some repli_timestamp_invalid\<rparr>,
        \<lparr>op_block_id = 3, token = None, recency = Some (repli_timestamp 9)\<rparr>] 0 \<and>
   Block_write 100 1 0 0 \<in> set example_prog \<and>
   (0 \<in> set [0::nat] \<and> (\<exists>k<5. example_prog ! k = Wait 0))"
proof -
  have prog: "example_prog =
     [New_write_cond 0 None, Block_write 100 1 0 0, On_write_launched 7 (Some 0), Wait 0,
      Delete_write_cond 0,
      Index_write
       [\<lparr>op_block_id = 1, token = Some (Some 0), recency = Some (repli_timestamp 5)\<rparr>,
        \<lparr>op_block_id = 2, token = Some None, recency = Some repli_timestamp_invalid\<rparr>,
        \<lparr>op_block_id = 3, token = None, recency = Some (repli_timestamp 9)\<rparr>] 0]"
    by (simp add: example_prog_def example_writes_def example_world_def counting_serializer_def
        do_writes_def make_update_def make_delete_def make_touch_def index_write_op_def
        new_write_cond_def emit_def token_get_def Let_def)
  have h1: "trace (do_writes counting_serializer example_writes 0 example_world) = trace example_world @ example_prog"
    by (simp add: example_prog_def example_world_def)
  have h2: "run_sched example_prog [Run, Run, Run, Io_complete 0, Run, Run, Run] init_run =
     Some \<lparr>pc = 6, heap = (\<lambda>p. None), in_flight = [], completed = [0], forwarded = []\<rparr>"
    by (simp add: prog init_run_def write_cond_on_io_complete_def)
  have h3: "(5::nat) < pc \<lparr>pc = 6, heap = (\<lambda>p. None), in_flight = [], completed = [0], forwarded = []\<rparr>"
    by simp
  have h4: "example_prog ! 5 =
     Index_write
       [\<lparr>op_block_id = 1, token = Some (Some 0), recency = Some (repli_timestamp 5)\<rparr>,
        \<lparr>op_block_id = 2, token = Some None, recency = Some repli_timestamp_invalid\<rparr>,
        \<lparr>op_block_id = 3, token = None, recency = Some (repli_timestamp 9)\<rparr>] 0"
    by (simp add: prog)
  have h5: "Block_write 100 1 0 0 \<in> set example_prog" by (simp add: prog)
  from do_writes_commit_after_completions[OF h1 h2 h3 h4 h5]
  have c: "0 \<in> set [0::nat] \<and> (\<exists>k<5. example_prog ! k = Wait 0)" by simp
  show ?thesis using h1 h2 h4 h5 c by simp
qed

subsection \<open>The fan-in of \<open>block_writes\<close>\<close>


lemma block_writes_loop_state:
  "block_writes_loop S acct infos (ret, st) = (ret1, st1) \<Longrightarrow>
   intermediate st1 = intermediate st \<and> events st1 = events st \<and>
   length ret1 = length ret + length infos \<and>
   issued st1 = issued st @ map (\<lambda>it. (info_buf it, info_block_id it, acct)) infos"
proof (induction infos arbitrary: ret st)
  case Nil
  then show ?case by simp
next
  case (Cons it its)
  obtain tok s1 where bw: "block_write S (fan_ser st) (info_buf it) (info_block_id it) acct 0 = (tok, s1)"
    by (metis surj_pair)
  with Cons.prems have "block_writes_loop S acct its
      (ret @ [tok], st\<lparr>fan_ser := s1, issued := issued st @ [(info_buf it, info_block_id it, acct)]\<rparr>) = (ret1, st1)"
    by simp
  from Cons.IH[OF this] show ?case by simp
qed

lemma block_writes_state:
  "block_writes S infos acct cb s = (ret, st) \<Longrightarrow>
   intermediate st = Some \<lparr>countdown = length infos, callee = cb\<rparr> \<and> events st = [] \<and>
   length ret = length infos \<and>
   issued st = map (\<lambda>it. (info_buf it, info_block_id it, acct)) infos"
  using block_writes_loop_state[of S acct infos "[]" _ ret st]
  by (simp add: block_writes_def)

lemma fire_completions_countdown:
  "intermediate st = Some \<lparr>countdown = length order, callee = cb\<rparr> \<Longrightarrow> order \<noteq> [] \<Longrightarrow>
   fire_completions order st =
     Inr (st\<lparr>intermediate := None, events := events st @ map Completed order @ [Downstream cb]\<rparr>)"
proof (induction order arbitrary: st)
  case Nil
  then show ?case by simp
next
  case (Cons i order)
  show ?case
  proof (cases "order = []")
    case True
    with Cons.prems show ?thesis
      by (simp add: intermediate_on_io_complete_def)
  next
    case False
    let ?st1 = "st\<lparr>events := events st @ [Completed i],
                    intermediate := Some \<lparr>countdown = length order, callee = cb\<rparr>\<rparr>"
    have step: "intermediate_on_io_complete (st\<lparr>events := events st @ [Completed i]\<rparr>) = Inr ?st1"
      using Cons.prems False by (simp add: intermediate_on_io_complete_def)
    have "fire_completions order ?st1 =
        Inr (?st1\<lparr>intermediate := None, events := events ?st1 @ map Completed order @ [Downstream cb]\<rparr>)"
      by (rule Cons.IH) (simp_all add: False)
    with step show ?thesis by simp
  qed
qed

lemma fire_completions_partial:
  "intermediate st = Some \<lparr>countdown = n, callee = cb\<rparr> \<Longrightarrow> length pre < n \<Longrightarrow>
   fire_completions pre st =
     Inr (st\<lparr>intermediate := Some \<lparr>countdown = n - length pre, callee = cb\<rparr>,
               events := events st @ map Completed pre\<rparr>)"
proof (induction pre arbitrary: st n)
  case Nil
  then show ?case by simp
next
  case (Cons i pre)
  let ?st1 = "st\<lparr>events := events st @ [Completed i],
                  intermediate := Some \<lparr>countdown = n - 1, callee = cb\<rparr>\<rparr>"
  have step: "intermediate_on_io_complete (st\<lparr>events := events st @ [Completed i]\<rparr>) = Inr ?st1"
    using Cons.prems by (simp add: intermediate_on_io_complete_def)
  have "fire_completions pre ?st1 =
      Inr (?st1\<lparr>intermediate := Some \<lparr>countdown = (n - 1) - length pre, callee = cb\<rparr>,
                 events := events ?st1 @ map Completed pre\<rparr>)"
    by (rule Cons.IH) (use Cons.prems in simp_all)
  with step show ?case by simp
qed

text \<open>
  Claim C4. Let \<open>block_writes\<close> be called on \<open>N \<ge> 1\<close> writes and let the \<open>N\<close>
  completions fire in any order (a list without repetition of the positions
  \<open>0, \<dots>, N - 1\<close>). Then no fault occurs, the downstream callback is called exactly once,
  as the last event after all \<open>N\<close> completions, and the aggregator is deleted by then;
  after any \<open>k < N\<close> completions the callback has not been called and the countdown is
  \<open>N - k\<close>. The outcome differs between two orders only in the order of the completions.
\<close>

theorem block_writes_fan_in:
  assumes "write_infos \<noteq> []"
    and "distinct order" and "set order = {0..<length write_infos}"
    and "block_writes S write_infos acct cb s = (ret, st)"
  shows "events st = [] \<and>
         fire_completions order st =
           Inr (st\<lparr>intermediate := None, events := map Completed order @ [Downstream cb]\<rparr>) \<and>
         (\<forall>k<length order. fire_completions (take k order) st =
              Inr (st\<lparr>intermediate := Some \<lparr>countdown = length write_infos - k, callee = cb\<rparr>,
                        events := map Completed (take k order)\<rparr>))"
proof -
  have len: "length order = length write_infos"
    using assms(2,3) by (metis card_atLeastLessThan diff_zero distinct_card)
  from block_writes_state[OF assms(4)]
  have i: "intermediate st = Some \<lparr>countdown = length write_infos, callee = cb\<rparr>"
    and e: "events st = []" by simp_all
  have ne: "order \<noteq> []" using len assms(1) by auto
  have full: "fire_completions order st =
           Inr (st\<lparr>intermediate := None, events := map Completed order @ [Downstream cb]\<rparr>)"
    using fire_completions_countdown[of st order cb] i e ne len by simp
  have part: "fire_completions (take k order) st =
              Inr (st\<lparr>intermediate := Some \<lparr>countdown = length write_infos - k, callee = cb\<rparr>,
                        events := map Completed (take k order)\<rparr>)" if "k < length order" for k
    using fire_completions_partial[of st "length write_infos" cb "take k order"] i e that len
    by simp
  show ?thesis using e full part by blast
qed

theorem block_writes_fan_in_witness:
  "example_infos \<noteq> [] \<and> distinct [2, 0, 1::nat] \<and> set [2, 0, 1] = {0..<length example_infos} \<and>
   block_writes counting_serializer example_infos 0 9 0 =
     ([Some 0, Some 1, Some 2],
      \<lparr>fan_ser = 3, intermediate = Some \<lparr>countdown = 3, callee = 9\<rparr>,
         issued = [(100, 1, 0), (101, 2, 0), (102, 3, 0)], events = []\<rparr>) \<and>
   fire_completions [2, 0, 1]
      \<lparr>fan_ser = 3::nat, intermediate = Some \<lparr>countdown = 3, callee = 9\<rparr>,
         issued = [(100, 1, 0), (101, 2, 0), (102, 3, 0)], events = []\<rparr> =
     Inr \<lparr>fan_ser = 3, intermediate = None,
         issued = [(100, 1, 0), (101, 2, 0), (102, 3, 0)],
         events = [Completed 2, Completed 0, Completed 1, Downstream 9]\<rparr>"
proof -
  let ?st = "\<lparr>fan_ser = 3::nat, intermediate = Some \<lparr>countdown = 3, callee = 9\<rparr>,
         issued = [(100, 1, 0), (101, 2, 0), (102, 3, 0)], events = []\<rparr>"
  have h1: "example_infos \<noteq> []" by (simp add: example_infos_def)
  have h2: "distinct [2, 0, 1::nat]" by simp
  have h3: "set [2, 0, 1] = {0..<length example_infos}" by (auto simp: example_infos_def)
  have h4: "block_writes counting_serializer example_infos 0 9 0 = ([Some 0, Some 1, Some 2], ?st)"
    by (simp add: block_writes_def example_infos_def counting_serializer_def)
  from block_writes_fan_in[OF h1 h2 h3 h4]
  have "fire_completions [2, 0, 1] ?st =
     Inr (?st\<lparr>intermediate := None, events := map Completed [2, 0, 1] @ [Downstream 9]\<rparr>)"
    by blast
  then show ?thesis using h1 h2 h3 h4 by simp
qed

text \<open>
  Claim C3 fails on the code. On an empty \<open>write_infos\<close> the function returns with the
  countdown at zero, no write issued, the downstream callback not called and the aggregator
  still allocated; no completion will ever come, and a call of \<open>on_io_complete\<close> would
  fail its \<open>guarantee\<close>.
\<close>

theorem block_writes_empty:
  "block_writes S [] acct cb s =
     ([], \<lparr>fan_ser = s, intermediate = Some \<lparr>countdown = 0, callee = cb\<rparr>, issued = [], events = []\<rparr>) \<and>
   intermediate_on_io_complete (snd (block_writes S [] acct cb s)) = Inl Guarantee_failed"
  by (simp add: block_writes_def intermediate_on_io_complete_def)

subsection \<open>The data buffer wrapper\<close>


lemma run_init:
  "is_init i \<Longrightarrow> \<exists>b s1. run_ptr_ops A (i # ops) (None, s) = run_ptr_ops A ops (Some b, s1)"
proof (cases i)
  case Init_malloc
  obtain b s1 where "ser_malloc A s = (b, s1)" by (metis surj_pair)
  then have "run_ptr_ops A (i # ops) (None, s) = run_ptr_ops A ops (Some b, s1)"
    using Init_malloc by (simp add: init_malloc_def)
  then show ?thesis by blast
next
  case (Init_clone other)
  assume "is_init i"
  with Init_clone obtain ob where ob: "other = Some ob" by auto
  obtain b s1 where "ser_clone A s ob = (b, s1)" by (metis surj_pair)
  then have "run_ptr_ops A (i # ops) (None, s) = run_ptr_ops A ops (Some b, s1)"
    using Init_clone ob by (simp add: init_clone_def)
  then show ?thesis by blast
next
  case Free
  assume "is_init i"
  with Free show ?thesis by simp
qed

lemma run_free: "run_ptr_ops A (Free # ops) (Some b, s) = run_ptr_ops A ops (None, s)"
  by (simp add: data_ptr_free_def)

lemma disciplined_runs:
  "disciplined ops \<Longrightarrow> \<exists>ptr s1. run_ptr_ops A ops (None, s) = Inr (ptr, s1)"
proof (induction ops arbitrary: s rule: disciplined.induct)
  case 1
  then show ?case by simp
next
  case (2 i)
  then have "is_init i" by simp
  from run_init[OF this, of A "[]" s] show ?case by auto
next
  case (3 i ops)
  then have i: "is_init i" and d: "disciplined ops" by simp_all
  from run_init[OF i, of A "Free # ops" s] obtain b s1 where
    "run_ptr_ops A (i # Free # ops) (None, s) = run_ptr_ops A (Free # ops) (Some b, s1)" by blast
  then have "run_ptr_ops A (i # Free # ops) (None, s) = run_ptr_ops A ops (None, s1)"
    by (simp only: run_free)
  with 3(1)[OF d, of s1] show ?case by simp
qed simp_all

text \<open>
  Claim C8. \<open>free\<close> fails its assertion exactly on an empty wrapper, \<open>init_malloc\<close>
  exactly on a wrapper that owns a buffer, \<open>init_clone\<close> exactly when the source is empty
  or the destination owns a buffer; otherwise each does its work. A sequence of operations
  that follows the discipline, started on an empty wrapper, runs without a failed
  assertion.
\<close>

theorem data_ptr_assertions:
  "data_ptr_free None = Inl Rassert_failed \<and>
   data_ptr_free (Some b) = Inr None \<and>
   init_malloc A s (Some b) = Inl Rassert_failed \<and>
   init_malloc A s None = Inr (Some (fst (ser_malloc A s)), snd (ser_malloc A s)) \<and>
   init_clone A s None ptr = Inl Rassert_failed \<and>
   init_clone A s other (Some b) = Inl Rassert_failed \<and>
   init_clone A s (Some ob) None = Inr (Some (fst (ser_clone A s ob)), snd (ser_clone A s ob)) \<and>
   (disciplined ops \<longrightarrow> (\<exists>ptr s1. run_ptr_ops A ops (None, s) = Inr (ptr, s1)))"
  using disciplined_runs[of ops A s]
  by (auto simp: data_ptr_free_def init_malloc_def init_clone_def split: prod.splits option.splits)

theorem data_ptr_assertions_witness:
  "disciplined [Init_clone (Some (7::nat)), Free, Init_malloc, Free] \<and>
   run_ptr_ops counting_allocator [Init_clone (Some 7), Free, Init_malloc, Free] (None, 0) = Inr (None, 2)"
proof -
  have d: "disciplined [Init_clone (Some (7::nat)), Free, Init_malloc, Free]" by simp
  from data_ptr_assertions[of 0 counting_allocator 0 None None 0 "[Init_clone (Some (7::nat)), Free, Init_malloc, Free]"] d
  have "\<exists>ptr s1. run_ptr_ops counting_allocator [Init_clone (Some 7), Free, Init_malloc, Free] (None, 0) = Inr (ptr, s1)"
    by blast
  then show ?thesis
    using d by (simp add: counting_allocator_def init_clone_def init_malloc_def data_ptr_free_def)
qed

subsection \<open>Shards to and from datums\<close>


lemma check_directors_ok:
  "set ds \<subseteq> replicas \<Longrightarrow> distinct ds \<Longrightarrow> set ds \<inter> seen = {} \<Longrightarrow>
   check_directors cstr replicas ds seen = None"
  by (induction ds arbitrary: seen) auto

lemma from_all_roundtrip:
  "(\<forall>x\<in>set xs. conv (to x) = Inr x) \<Longrightarrow> from_all conv (map to xs) = Inr xs"
  by (induction xs) auto

lemma set_from_all_roundtrip:
  "(\<forall>x\<in>set xs. conv (to x) = Inr x) \<Longrightarrow> distinct xs \<Longrightarrow> set xs \<inter> acc = {} \<Longrightarrow>
   set_from_all conv False (map to xs) acc = Inr (set xs \<union> acc)"
  by (induction xs arbitrary: acc) auto

lemma test_adapter_ok: "adapter_ok test_adapter"
proof -
  have s: "set_from_all conv False (map to (sorted_list_of_set S)) {} = Inr S"
    if "finite S" "\<forall>x\<in>S. conv (to x) = Inr x" for conv :: "datum \<Rightarrow> string + nat" and to S
    using set_from_all_roundtrip[of "sorted_list_of_set S" conv to "{}"] that by simp
  show ?thesis
    unfolding adapter_ok_def
    by (simp add: test_adapter_def s from_all_roundtrip test_get_def)
qed

lemma adapter_name:
  "adapter_ok A \<Longrightarrow> convert_name_from_datum A (convert_name_to_datum A n) what = Inr n"
  unfolding adapter_ok_def by (elim conjE) (erule allE, erule allE, assumption)

lemma adapter_is_array:
  "adapter_ok A \<Longrightarrow> is_array A (convert_set_to_datum A to S)"
  unfolding adapter_ok_def by (elim conjE) (erule allE, erule allE, assumption)

lemma adapter_set:
  assumes "adapter_ok A" and "finite S" and "\<forall>x\<in>S. from (to x) = Inr x"
  shows "convert_set_from_datum A from False (convert_set_to_datum A to S) = Inr S"
proof -
  from assms(1) have "\<forall>to from S. finite S \<longrightarrow> (\<forall>x\<in>S. from (to x) = Inr x) \<longrightarrow>
          convert_set_from_datum A from False (convert_set_to_datum A to S) = Inr S"
    unfolding adapter_ok_def by (elim conjE)
  from this[rule_format, OF assms(2)] assms(3) show ?thesis by simp
qed

lemma adapter_vector:
  assumes "adapter_ok A" and "\<forall>x\<in>set xs. from (to x) = Inr x"
  shows "convert_vector_from_datum A from (convert_vector_to_datum A to xs) = Inr xs"
proof -
  from assms(1) have "\<forall>to from xs. (\<forall>x\<in>set xs. from (to x) = Inr x) \<longrightarrow>
          convert_vector_from_datum A from (convert_vector_to_datum A to xs) = Inr xs"
    unfolding adapter_ok_def by (elim conjE)
  from this[rule_format] assms(2) show ?thesis by simp
qed

lemma adapter_object:
  assumes "adapter_ok A" and "k1 \<noteq> k2"
  shows "\<exists>c0 c1 c2.
              converter_init A (to_datum A (overwrite A (overwrite A (builder_new A) k1 v1) k2 v2)) = Inr c0 \<and>
              converter_get A c0 k1 = Inr (v1, c1) \<and>
              converter_get A c1 k2 = Inr (v2, c2) \<and>
              check_no_extra_keys A c2 = Inr ()"
proof -
  from assms(1) have "\<forall>k1 v1 k2 v2. k1 \<noteq> k2 \<longrightarrow>
          (\<exists>c0 c1 c2.
              converter_init A (to_datum A (overwrite A (overwrite A (builder_new A) k1 v1) k2 v2)) = Inr c0 \<and>
              converter_get A c0 k1 = Inr (v1, c1) \<and>
              converter_get A c1 k2 = Inr (v2, c2) \<and>
              check_no_extra_keys A c2 = Inr ())"
    unfolding adapter_ok_def by (elim conjE)
  from this[rule_format, OF assms(2)] show ?thesis .
qed

text \<open>
  Claim C9. Let the absent datum helpers meet \<open>adapter_ok\<close>. For every shard whose
  replica set is finite (as a \<open>std::set\<close> is) and not empty, and whose director list is
  not empty, free of duplicates and made of replicas only,
  \<open>convert_table_config_shard_from_datum\<close> applied to the datum written by
  \<open>convert_table_config_shard_to_datum\<close> returns \<open>true\<close> with the shard it started from.
\<close>

theorem shard_datum_roundtrip:
  assumes "adapter_ok A"
    and "finite (replica_names shard)" and "replica_names shard \<noteq> {}"
    and "director_names shard \<noteq> []" and "distinct (director_names shard)"
    and "set (director_names shard) \<subseteq> replica_names shard"
  shows "convert_table_config_shard_from_datum A (convert_table_config_shard_to_datum A shard) = Inr shard"
proof -
  let ?R = "convert_set_to_datum A (convert_name_to_datum A) (replica_names shard)"
  let ?D = "convert_vector_to_datum A (convert_name_to_datum A) (director_names shard)"
  let ?from = "\<lambda>datum2. convert_name_from_datum A datum2 ''server name''"
  have name: "?from (convert_name_to_datum A n) = Inr n" for n
    using assms(1) by (rule adapter_name)
  have arr: "is_array A ?R" using assms(1) by (rule adapter_is_array)
  have rs: "convert_set_from_datum A ?from False ?R = Inr (replica_names shard)"
    by (rule adapter_set[OF assms(1,2)]) (simp add: name)
  have ds: "convert_vector_from_datum A ?from ?D = Inr (director_names shard)"
    by (rule adapter_vector[OF assms(1)]) (simp add: name)
  have keys: "''replicas'' \<noteq> ''directors''" by simp
  from adapter_object[OF assms(1) keys, of ?R ?D] obtain c0 c1 c2 where
    obj: "converter_init A (to_datum A (overwrite A (overwrite A (builder_new A) ''replicas'' ?R) ''directors'' ?D)) = Inr c0"
      "converter_get A c0 ''replicas'' = Inr (?R, c1)"
      "converter_get A c1 ''directors'' = Inr (?D, c2)"
      "check_no_extra_keys A c2 = Inr ()"
    by blast
  have td: "convert_table_config_shard_to_datum A shard =
      to_datum A (overwrite A (overwrite A (builder_new A) ''replicas'' ?R) ''directors'' ?D)"
    by (simp only: convert_table_config_shard_to_datum_def Let_def)
  have chk: "check_directors (c_str A) (replica_names shard) (director_names shard) {} = None"
    using assms(5,6) by (simp add: check_directors_ok)
  show ?thesis
    unfolding convert_table_config_shard_from_datum_def td
    by (simp only: obj arr rs ds chk assms(3,4) sum.case prod.case if_False if_True not_True_eq_False
        option.case simp_thms) simp
qed

theorem shard_datum_roundtrip_witness:
  "adapter_ok test_adapter \<and> finite (replica_names example_shard) \<and>
   replica_names example_shard \<noteq> {} \<and> director_names example_shard \<noteq> [] \<and>
   distinct (director_names example_shard) \<and>
   set (director_names example_shard) \<subseteq> replica_names example_shard \<and>
   convert_table_config_shard_from_datum test_adapter
     (convert_table_config_shard_to_datum test_adapter example_shard) = Inr example_shard"
proof -
  have h2: "finite (replica_names example_shard)" by (simp add: example_shard_def)
  have h3: "replica_names example_shard \<noteq> {}" by (simp add: example_shard_def)
  have h4: "director_names example_shard \<noteq> []" by (simp add: example_shard_def)
  have h5: "distinct (director_names example_shard)" by (simp add: example_shard_def)
  have h6: "set (director_names example_shard) \<subseteq> replica_names example_shard"
    by (simp add: example_shard_def)
  from shard_datum_roundtrip[OF test_adapter_ok h2 h3 h4 h5 h6] test_adapter_ok h2 h3 h4 h5 h6
  show ?thesis by simp
qed

subsection \<open>Writing a row of the table configuration\<close>


lemma outcome_ok_simps:
  "outcome_ok B v Guarantee_fails"
  "outcome_ok B v (Returns_false e \<lparr>sl_view = v, md = v\<rparr>)"
  "sl_view st = v \<Longrightarrow> outcome_ok B v (Returns_true (join_view B st))"
  by (simp_all add: outcome_ok_def join_view_def)

lemma write_row_existing_ok:
  "outcome_ok B v (write_row_existing A B auto table_id k new_table_name new_db_name cfg
       new_primary_key \<lparr>sl_view = v, md = v\<rparr>)"
  unfolding write_row_existing_def Let_def
  by (simp add: outcome_ok_simps split: sum.split option.split deletable_t.split)

lemma write_row_new_ok:
  "outcome_ok B v (write_row_new A B auto table_id new_table_name new_db_name cfg
       new_primary_key \<lparr>sl_view = v, md = v\<rparr>)"
  unfolding write_row_new_def Let_def
  by (simp add: outcome_ok_simps split: sum.split option.split)

lemma write_row_outcome_ok:
  "outcome_ok B v (write_row A B row_key pkey_was_autogenerated new_value v)"
  unfolding write_row_def Let_def
  by (simp add: outcome_ok_simps write_row_existing_ok write_row_new_ok
      split: sum.split option.split prod.split)


text \<open>
  Claim C10. If \<open>write_row\<close> returns \<open>false\<close>, then at that point the value published in
  \<open>table_sl_view\<close> is the one it held at the call, and so is the local copy \<open>md\<close>: no
  change has been made or joined. If it returns \<open>true\<close>, the view holds the join of its
  former value with \<open>md\<close>: the join is the last step of exactly these paths.
\<close>

theorem write_row_false_leaves_view:
  "(write_row A B row_key pkey_was_autogenerated new_value v = Returns_false e st \<longrightarrow>
      sl_view st = v \<and> md st = v) \<and>
   (write_row A B row_key pkey_was_autogenerated new_value v = Returns_true st \<longrightarrow>
      sl_view st = sl_join B v (md st))"
  using write_row_outcome_ok[of B v A row_key pkey_was_autogenerated new_value]
  by (auto simp: outcome_ok_def)

lemma example_row_parses:
  "convert_table_config_and_name_from_datum test_adapter example_row =
     Inr (10, 20, 7, \<lparr>shards = [\<lparr>replica_names = {1, 2}, director_names = [2]\<rparr>]\<rparr>, ''id'')"
  by (simp add: convert_table_config_and_name_from_datum_def convert_table_config_shard_from_datum_def
      test_adapter_def example_row_def test_get_def insert_commute)

lemma test_adapter_sel:
  "convert_uuid_from_datum test_adapter = test_uuid_from"
  "has test_adapter example_row"
  by (simp_all add: test_adapter_def example_row_def)

theorem write_row_false_leaves_view_witness:
  "write_row test_adapter test_backend (Uuid 7) False example_row empty_metadata =
     Returns_false ''If you want to create a new table by inserting into `rethinkdb.table_config`, you must use an auto-generated primary key.''
       \<lparr>sl_view = empty_metadata, md = empty_metadata\<rparr> \<and>
   write_row test_adapter test_backend (Uuid 7) True example_row empty_metadata =
     Returns_true
       \<lparr>sl_view = \<lparr>namespaces = namespaces empty_metadata ++ [7 \<mapsto> Live \<lparr>name = 10, database = 20, primary_key = ''id'',
              replication_info = \<lparr>config = \<lparr>shards = [\<lparr>replica_names = {1, 2}, director_names = [2]\<rparr>]\<rparr>,
                 chosen_directors = [2], shard_scheme = 1\<rparr>\<rparr>]\<rparr>,
        md = \<lparr>namespaces = [7 \<mapsto> Live \<lparr>name = 10, database = 20, primary_key = ''id'',
              replication_info = \<lparr>config = \<lparr>shards = [\<lparr>replica_names = {1, 2}, director_names = [2]\<rparr>]\<rparr>,
                 chosen_directors = [2], shard_scheme = 1\<rparr>\<rparr>]\<rparr>\<rparr> \<and>
   sl_view \<lparr>sl_view = empty_metadata, md = empty_metadata\<rparr> = empty_metadata \<and>
   md \<lparr>sl_view = empty_metadata, md = empty_metadata\<rparr> = empty_metadata \<and>
   sl_view \<lparr>sl_view = \<lparr>namespaces = namespaces empty_metadata ++ [7 \<mapsto> Live \<lparr>name = 10, database = 20, primary_key = ''id'',
              replication_info = \<lparr>config = \<lparr>shards = [\<lparr>replica_names = {1, 2}, director_names = [2]\<rparr>]\<rparr>,
                 chosen_directors = [2], shard_scheme = 1\<rparr>\<rparr>]\<rparr>,
        md = \<lparr>namespaces = [7 \<mapsto> Live \<lparr>name = 10, database = 20, primary_key = ''id'',
              replication_info = \<lparr>config = \<lparr>shards = [\<lparr>replica_names = {1, 2}, director_names = [2]\<rparr>]\<rparr>,
                 chosen_directors = [2], shard_scheme = 1\<rparr>\<rparr>]\<rparr>\<rparr> =
     sl_join test_backend empty_metadata
       (md \<lparr>sl_view = \<lparr>namespaces = namespaces empty_metadata ++ [7 \<mapsto> Live \<lparr>name = 10, database = 20, primary_key = ''id'',
              replication_info = \<lparr>config = \<lparr>shards = [\<lparr>replica_names = {1, 2}, director_names = [2]\<rparr>]\<rparr>,
                 chosen_directors = [2], shard_scheme = 1\<rparr>\<rparr>]\<rparr>,
        md = \<lparr>namespaces = [7 \<mapsto> Live \<lparr>name = 10, database = 20, primary_key = ''id'',
              replication_info = \<lparr>config = \<lparr>shards = [\<lparr>replica_names = {1, 2}, director_names = [2]\<rparr>]\<rparr>,
                 chosen_directors = [2], shard_scheme = 1\<rparr>\<rparr>]\<rparr>\<rparr>)"
proof -
  let ?e = "''If you want to create a new table by inserting into `rethinkdb.table_config`, you must use an auto-generated primary key.''"
  let ?stf = "\<lparr>sl_view = empty_metadata, md = empty_metadata\<rparr>"
  let ?stt = "\<lparr>sl_view = \<lparr>namespaces = namespaces empty_metadata ++ [7 \<mapsto> Live \<lparr>name = 10, database = 20, primary_key = ''id'',
              replication_info = \<lparr>config = \<lparr>shards = [\<lparr>replica_names = {1, 2}, director_names = [2]\<rparr>]\<rparr>,
                 chosen_directors = [2], shard_scheme = 1\<rparr>\<rparr>]\<rparr>,
        md = \<lparr>namespaces = [7 \<mapsto> Live \<lparr>name = 10, database = 20, primary_key = ''id'',
              replication_info = \<lparr>config = \<lparr>shards = [\<lparr>replica_names = {1, 2}, director_names = [2]\<rparr>]\<rparr>,
                 chosen_directors = [2], shard_scheme = 1\<rparr>\<rparr>]\<rparr>\<rparr>"
  have f: "write_row test_adapter test_backend (Uuid 7) False example_row empty_metadata =
     Returns_false ?e ?stf"
    by (simp add: write_row_def write_row_new_def example_row_parses test_adapter_sel
        test_backend_def empty_metadata_def Let_def)
  have t: "write_row test_adapter test_backend (Uuid 7) True example_row empty_metadata =
     Returns_true ?stt"
    by (simp add: write_row_def write_row_new_def example_row_parses join_view_def test_adapter_sel
        test_backend_def empty_metadata_def Let_def)
  from write_row_false_leaves_view[of test_adapter test_backend "Uuid 7" False example_row
      empty_metadata ?e ?stf] f
  have c1: "sl_view ?stf = empty_metadata \<and> md ?stf = empty_metadata" by blast
  from write_row_false_leaves_view[of test_adapter test_backend "Uuid 7" True example_row
      empty_metadata _ ?stt] t
  have c2: "sl_view ?stt = sl_join test_backend empty_metadata (md ?stt)" by blast
  show ?thesis using f t c1 c2 by blast
qed

end
